theory Spec2Isabelle
  imports Main "HOL-Library.Sublist"
begin

section \<open>Python strings\<close>

text \<open>
  A Python \<open>str\<close> is modelled as a \<open>string\<close>, one \<open>char\<close> per code point, which covers the
  code points up to \<open>0xFF\<close>; the model is exact for ASCII text, which is what the structure
  documents and the generated paths hold. Characters outside ASCII are left unchanged by
  the case conversions below.
\<close>

definition upper_letters :: string where
  "upper_letters = ''ABCDEFGHIJKLMNOPQRSTUVWXYZ''"

definition lower_letters :: string where
  "lower_letters = ''abcdefghijklmnopqrstuvwxyz''"

definition lower_char :: "char \<Rightarrow> char" where
  "lower_char c = (case map_of (zip upper_letters lower_letters) c of Some d \<Rightarrow> d | None \<Rightarrow> c)"

definition upper_char :: "char \<Rightarrow> char" where
  "upper_char c = (case map_of (zip lower_letters upper_letters) c of Some d \<Rightarrow> d | None \<Rightarrow> c)"

text \<open>\<open>s.lower()\<close>\<close>

definition py_lower :: "string \<Rightarrow> string" where
  "py_lower s = map lower_char s"

text \<open>\<open>s.capitalize()\<close>: the first character upper-cased, every other one lower-cased.\<close>

fun py_capitalize :: "string \<Rightarrow> string" where
  "py_capitalize [] = []"
| "py_capitalize (c # cs) = upper_char c # map lower_char cs"

text \<open>\<open>s.startswith(p)\<close>, \<open>s.endswith(p)\<close> and \<open>sub in s\<close>\<close>

definition startswith :: "string \<Rightarrow> string \<Rightarrow> bool" where
  "startswith s p = prefix p s"

definition endswith :: "string \<Rightarrow> string \<Rightarrow> bool" where
  "endswith s p = suffix p s"

fun contains :: "string \<Rightarrow> string \<Rightarrow> bool" where
  "contains [] sub = (sub = [])"
| "contains (c # cs) sub = (prefix sub (c # cs) \<or> contains cs sub)"

text \<open>
  \<open>s.replace(old, new)\<close>: every non-overlapping occurrence, scanning from the left. With
  an empty \<open>old\<close> Python puts \<open>new\<close> before every character and at the end.
\<close>

fun py_replace :: "string \<Rightarrow> string \<Rightarrow> string \<Rightarrow> string" where
  "py_replace [] new s = new @ concat (map (\<lambda>c. c # new) s)"
| "py_replace (a # as) new [] = []"
| "py_replace (a # as) new (c # cs) =
     (if prefix (a # as) (c # cs) then new @ py_replace (a # as) new (drop (length as) cs)
      else c # py_replace (a # as) new cs)"

text \<open>
  \<open>s.split(sep)\<close> for a non-empty separator: \<open>split_acc sep acc rest\<close> holds the
  current field reversed in \<open>acc\<close>. Python raises \<open>ValueError\<close> on an empty separator;
  every call site passes a non-empty literal, so the first equation is never reached.
\<close>

fun split_acc :: "string \<Rightarrow> string \<Rightarrow> string \<Rightarrow> string list" where
  "split_acc [] acc rest = [rev acc @ rest]"
| "split_acc (a # as) acc [] = [rev acc]"
| "split_acc (a # as) acc (c # cs) =
     (if prefix (a # as) (c # cs) then rev acc # split_acc (a # as) [] (drop (length as) cs)
      else split_acc (a # as) (c # acc) cs)"

definition py_split :: "string \<Rightarrow> string \<Rightarrow> string list" where
  "py_split s sep = split_acc sep [] s"

text \<open>\<open>sep.join(xs)\<close>\<close>

fun py_join :: "string \<Rightarrow> string list \<Rightarrow> string" where
  "py_join sep [] = []"
| "py_join sep [x] = x"
| "py_join sep (x # y # ys) = x @ sep @ py_join sep (y # ys)"

text \<open>
  \<open>s.strip()\<close> removes leading and trailing whitespace, the characters for which
  \<open>str.isspace\<close> holds: tab, line feed, vertical tab, form feed, carriage return, the four
  separators \<open>0x1C\<close> to \<open>0x1F\<close>, the space, the next-line character \<open>0x85\<close> and the
  no-break space \<open>0xA0\<close>. The other white space of Unicode lies above \<open>0xFF\<close>, beyond the
  characters a \<open>char\<close> can hold.
\<close>

definition is_space :: "char \<Rightarrow> bool" where
  "is_space c = (c \<in> set [CHR 0x09, CHR 0x0A, CHR 0x0B, CHR 0x0C, CHR 0x0D,
                            CHR 0x1C, CHR 0x1D, CHR 0x1E, CHR 0x1F, CHR 0x20,
                            CHR 0x85, CHR 0xA0])"

definition py_strip :: "string \<Rightarrow> string" where
  "py_strip s = rev (dropWhile is_space (rev (dropWhile is_space s)))"

text \<open>\<open>s * n\<close>\<close>

definition py_repeat :: "string \<Rightarrow> nat \<Rightarrow> string" where
  "py_repeat s n = concat (replicate n s)"

section \<open>pathlib paths\<close>

text \<open>
  A \<open>PurePosixPath\<close> is its root (\<open>''''\<close> for a relative path, \<open>''/''\<close>, or \<open>''//''\<close> when
  the text starts with exactly two slashes) and its names. Parsing splits at \<open>/\<close> and
  drops empty and \<open>.\<close> segments; \<open>..\<close> segments are kept.
\<close>

datatype ppath = PPath (proot: string) (pnames: "string list")

definition Path :: "string \<Rightarrow> ppath" where
  "Path s =
     (let lead = length (takeWhile (\<lambda>c. c = CHR ''/'') s);
          root = (if lead = 0 then '''' else if lead = 2 then ''//'' else ''/'')
      in PPath root (filter (\<lambda>n. n \<noteq> '''' \<and> n \<noteq> ''.'') (py_split s ''/'')))"

text \<open>\<open>p.parts\<close>\<close>

definition parts :: "ppath \<Rightarrow> string list" where
  "parts p = (if proot p = '''' then pnames p else proot p # pnames p)"

text \<open>\<open>str(p)\<close>\<close>

definition path_str :: "ppath \<Rightarrow> string" where
  "path_str p =
     (if proot p = '''' \<and> pnames p = [] then ''.'' else proot p @ py_join ''/'' (pnames p))"

text \<open>\<open>p.name\<close>, \<open>p.parent\<close> and \<open>p / q\<close>\<close>

definition name :: "ppath \<Rightarrow> string" where
  "name p = (if pnames p = [] then '''' else last (pnames p))"

definition parent :: "ppath \<Rightarrow> ppath" where
  "parent p = PPath (proot p) (butlast (pnames p))"

definition joinpath :: "ppath \<Rightarrow> ppath \<Rightarrow> ppath" where
  "joinpath p q = (if proot q \<noteq> '''' then q else PPath (proot p) (pnames p @ pnames q))"

text \<open>
  \<open>p.stem\<close> and \<open>p.suffix\<close>: with \<open>i = name.rfind('.')\<close>, the name is cut at \<open>i\<close> when
  \<open>0 < i < len(name) - 1\<close>; otherwise the stem is the whole name and the suffix is empty.
\<close>

definition last_dot :: "string \<Rightarrow> nat option" where
  "last_dot n =
     (let after = length (takeWhile (\<lambda>c. c \<noteq> CHR ''.'') (rev n))
      in if after = length n then None else Some (length n - after - 1))"

definition stem_of_name :: "string \<Rightarrow> string" where
  "stem_of_name n =
     (case last_dot n of
        None \<Rightarrow> n
      | Some i \<Rightarrow> if 0 < i \<and> i < length n - 1 then take i n else n)"

definition suffix_of_name :: "string \<Rightarrow> string" where
  "suffix_of_name n =
     (case last_dot n of
        None \<Rightarrow> ''''
      | Some i \<Rightarrow> if 0 < i \<and> i < length n - 1 then drop i n else '''')"

definition stem :: "ppath \<Rightarrow> string" where
  "stem p = stem_of_name (name p)"

definition path_suffix :: "ppath \<Rightarrow> string" where
  "path_suffix p = suffix_of_name (name p)"

section \<open>Class names and import references of the templates\<close>

text \<open>\<open>BaseTemplate.get_class_name_from_filename\<close> (templates/base_templates.py)\<close>

definition get_class_name_from_filename :: "string \<Rightarrow> string" where
  "get_class_name_from_filename filename =
     (let clean_name = py_replace ''.spec'' '''' (py_replace ''.test'' '''' filename)
      in concat (map py_capitalize (py_split clean_name ''_'')))"

text \<open>
  \<open>ControllerTemplate.generate\<close> (templates/backend_templates.py): the first four lines
  of the content, up to and including the class declaration. The rest of the template is
  the class body, which repeats the name only inside messages.
\<close>

definition ControllerTemplate_declaration :: "ppath \<Rightarrow> string" where
  "ControllerTemplate_declaration file_path =
     (let controller_name = get_class_name_from_filename (stem file_path)
      in ''import { Request, Response } from '' @ [CHR 0x27] @ ''express'' @ [CHR 0x27, CHR 0x0A]
         @ ''import { BaseController } from '' @ [CHR 0x27] @ ''./base/BaseController''
         @ [CHR 0x27, CHR 0x0A, CHR 0x0A]
         @ ''export class '' @ controller_name @ '' extends BaseController {'' @ [CHR 0x0A])"

text \<open>
  The legacy generator (generate_structure.py, \<open>_get_typescript_template\<close>, controller
  branch) declares the class under the stem itself.
\<close>

definition legacy_controller_declaration :: "ppath \<Rightarrow> string" where
  "legacy_controller_declaration file_path =
     (let name = stem file_path
      in ''import { Request, Response } from '' @ [CHR 0x27] @ ''express'' @ [CHR 0x27, CHR 0x0A]
         @ ''import { BaseController } from '' @ [CHR 0x27] @ ''./base/BaseController''
         @ [CHR 0x27, CHR 0x0A, CHR 0x0A]
         @ ''export class '' @ name @ '' extends BaseController {'' @ [CHR 0x0A])"

text \<open>
  \<open>xs[i + 1:-1]\<close> with \<open>i = xs.index(x)\<close>: what follows the first \<open>x\<close>, without the last
  element of the tuple.
\<close>

definition index_of :: "string \<Rightarrow> string list \<Rightarrow> nat" where
  "index_of x xs = length (takeWhile (\<lambda>y. y \<noteq> x) xs)"

definition after_index_no_filename :: "nat \<Rightarrow> string list \<Rightarrow> string list" where
  "after_index_no_filename i xs = butlast (drop (Suc i) xs)"

text \<open>\<open>TestTemplate.calculate_component_import\<close> (templates/base_templates.py)\<close>

definition calculate_component_import :: "ppath \<Rightarrow> string \<Rightarrow> string" where
  "calculate_component_import test_path component_name =
     (let test_parts = parts test_path in
      if ''tests'' \<in> set test_parts then
        let tests_index = index_of ''tests'' test_parts;
            relative_parts = after_index_no_filename tests_index test_parts;
            dots = py_repeat ''../'' (length relative_parts + 1)
        in dots @ py_join ''/'' relative_parts @ ''/'' @ component_name
      else ''./'' @ component_name)"

text \<open>\<open>_calculate_test_import_path\<close> of the legacy generator (generate_structure.py)\<close>

definition calculate_test_import_path :: "ppath \<Rightarrow> string \<Rightarrow> string" where
  "calculate_test_import_path test_file_path component_name =
     (let path_parts = parts test_file_path in
      if ''tests'' \<in> set path_parts then
        let tests_index = index_of ''tests'' path_parts;
            after_tests0 = after_index_no_filename tests_index path_parts;
            after_tests = (if after_tests0 \<noteq> [] \<and> hd after_tests0 = ''unit''
                           then tl after_tests0 else after_tests0)
        in if after_tests \<noteq> [] then
             py_repeat ''../'' (length path_parts - tests_index - 1)
               @ py_join ''/'' after_tests @ ''/'' @ component_name
           else ''./'' @ component_name
      else ''./'' @ component_name)"

section \<open>Path classification\<close>

text \<open>
  \<open>StructureParser._determine_file_type\<close> (v2/helpers/file_parser.py). The tag is a
  Python string; the branches are tried in the order of the source.
\<close>

definition determine_file_type :: "string \<Rightarrow> string" where
  "determine_file_type file_path =
     (let path_lower = py_lower file_path;
          filename = py_lower (name (Path file_path))
      in if filename = ''package.json'' then ''package''
         else if filename = ''tsconfig.json'' then ''tsconfig''
         else if filename = ''tsconfig.node.json'' then ''tsconfig_node''
         else if filename = ''vite.config.ts'' then ''vite_config''
         else if filename = ''jest.config.js'' then ''jest_config''
         else if filename = ''tailwind.config.js'' then ''tailwind_config''
         else if contains path_lower ''/tests/'' \<or> contains filename ''.test.''
                 \<or> contains filename ''.spec.'' then ''test''
         else if contains path_lower ''/components/'' \<and> endswith filename ''.tsx''
           then ''component''
         else if contains path_lower ''/services/'' then
           (if contains filename ''baseservice'' then ''base_service'' else ''service'')
         else if contains path_lower ''/hooks/'' then ''hook''
         else if contains path_lower ''/pages/'' then ''page''
         else if contains path_lower ''/controllers/'' then
           (if contains filename ''basecontroller'' then ''base_controller'' else ''controller'')
         else if contains path_lower ''/models/'' then
           (if contains filename ''basemodel'' then ''base_model'' else ''model'')
         else if contains path_lower ''/repositories/'' then
           (if contains filename ''baserepository'' then ''base_repository'' else ''repository'')
         else if contains path_lower ''/middleware/'' then ''middleware''
         else if contains path_lower ''/routes/'' then ''route''
         else if contains filename ''.sql'' then ''migration''
         else ''generic'')"

text \<open>The conditions of the branches above, as one predicate: some rule applies.\<close>

definition matches_some_rule :: "string \<Rightarrow> bool" where
  "matches_some_rule file_path =
     (let path_lower = py_lower file_path;
          filename = py_lower (name (Path file_path))
      in filename \<in> set [''package.json'', ''tsconfig.json'', ''tsconfig.node.json'',
                          ''vite.config.ts'', ''jest.config.js'', ''tailwind.config.js'']
         \<or> contains path_lower ''/tests/'' \<or> contains filename ''.test.''
         \<or> contains filename ''.spec.''
         \<or> (contains path_lower ''/components/'' \<and> endswith filename ''.tsx'')
         \<or> contains path_lower ''/services/'' \<or> contains path_lower ''/hooks/''
         \<or> contains path_lower ''/pages/'' \<or> contains path_lower ''/controllers/''
         \<or> contains path_lower ''/models/'' \<or> contains path_lower ''/repositories/''
         \<or> contains path_lower ''/middleware/'' \<or> contains path_lower ''/routes/''
         \<or> contains filename ''.sql'')"

text \<open>Every tag a \<open>return\<close> of \<open>_determine_file_type\<close> names.\<close>

definition file_types :: "string list" where
  "file_types =
     [''package'', ''tsconfig'', ''tsconfig_node'', ''vite_config'', ''jest_config'',
      ''tailwind_config'', ''test'', ''component'', ''base_service'', ''service'', ''hook'',
      ''page'', ''base_controller'', ''controller'', ''base_model'', ''model'',
      ''base_repository'', ''repository'', ''middleware'', ''route'', ''migration'',
      ''generic'']"

text \<open>
  The tag set as the specification lists it (component, hook, service, baseService,
  controller, baseController, model, repository, middleware, route, migration, test,
  packageManifest, typeConfig, nodeTypeConfig, generic), each under the string the code
  uses for it.
\<close>

definition spec_file_types :: "string list" where
  "spec_file_types =
     [''component'', ''hook'', ''service'', ''base_service'', ''controller'',
      ''base_controller'', ''model'', ''repository'', ''middleware'', ''route'',
      ''migration'', ''test'', ''package'', ''tsconfig'', ''tsconfig_node'', ''generic'']"

section \<open>Template keys\<close>

text \<open>\<open>get_project_type\<close> (v2/helpers/path_utils.py)\<close>

definition get_project_type :: "ppath \<Rightarrow> string" where
  "get_project_type file_path =
     (let path_str = py_lower (path_str file_path)
      in if contains path_str ''/frontend/'' then ''frontend''
         else if contains path_str ''/backend/'' then ''backend''
         else if contains path_str ''/electron/'' then ''electron''
         else ''unknown'')"

text \<open>\<open>TemplateFactory._resolve_template_key\<close> (v2/template_factory.py)\<close>

definition resolve_template_key :: "ppath \<Rightarrow> string \<Rightarrow> string \<Rightarrow> string" where
  "resolve_template_key file_path file_type project_type =
     (let filename = py_lower (name file_path)
      in if contains filename ''baseservice'' then
           (if project_type = ''frontend'' then ''frontend_base_service''
            else ''backend_base_service'')
         else if contains filename ''basecontroller'' then ''base_controller''
         else if file_type = ''package'' then ''package_json''
         else if file_type = ''tsconfig'' then ''tsconfig''
         else if file_type = ''tsconfig_node'' then ''tsconfig_node''
         else if file_type = ''service'' then
           (if project_type = ''frontend'' then ''frontend_service'' else ''backend_service'')
         else if file_type = ''test'' then
           (if contains filename ''integration'' then ''integration_test''
            else if contains filename ''e2e'' then ''e2e_test''
            else if contains filename ''performance'' \<or> contains filename ''load''
              then ''performance_test''
            else if project_type = ''frontend'' then ''react_test''
            else ''backend_test'')
         else if file_type = ''component'' then ''react_component''
         else if file_type = ''hook'' then ''react_hook''
         else if file_type = ''controller'' then ''controller''
         else if file_type = ''model'' then ''model''
         else if file_type = ''repository'' then ''repository''
         else if file_type = ''middleware'' then ''middleware''
         else if file_type = ''route'' then ''route''
         else if file_type = ''generic'' then
           (if filename = ''index'' then ''index''
            else if contains filename ''types'' \<or> endswith filename ''types'' then ''types''
            else if contains filename ''constants'' \<or> contains filename ''config''
              then ''constants''
            else if contains filename ''utils'' \<or> contains filename ''helpers''
              then ''utility''
            else ''generic'')
         else ''generic'')"

text \<open>
  \<open>TemplateFactory.get_template\<close> computes the key of a file from its path and the
  parser's tag.
\<close>

definition template_key :: "ppath \<Rightarrow> string \<Rightarrow> string" where
  "template_key file_path file_type =
     resolve_template_key file_path file_type (get_project_type file_path)"

section \<open>Structure documents\<close>

text \<open>
  The loop of \<open>StructureParser.parse_structure_file\<close> (v2/helpers/file_parser.py) over
  the list of lines; \<open>files\<close> is the list the loop appends to.
\<close>

fun parse_lines :: "(string \<times> string) list \<Rightarrow> string list \<Rightarrow> (string \<times> string) list" where
  "parse_lines files [] = files"
| "parse_lines files (l # ls) =
     (let line = py_strip l in
      if line = [] \<or> startswith line ''#'' \<or> startswith line ''This document''
        then parse_lines files ls
      else if startswith line ''###'' \<or> startswith line ''##'' then parse_lines files ls
      else if \<not> contains line ''/'' \<and> \<not> contains line ''.'' then parse_lines files ls
      else let file_path = py_strip line in
        if endswith file_path ''/'' then parse_lines files ls
        else parse_lines (files @ [(file_path, determine_file_type file_path)]) ls)"

text \<open>
  The separator the source passes to \<open>split\<close> is the literal \<open>'\\n'\<close>: a backslash
  followed by the letter n, two characters.
\<close>

definition line_separator :: string where
  "line_separator = [CHR 0x5C, CHR ''n'']"

definition parse_content :: "string \<Rightarrow> (string \<times> string) list" where
  "parse_content content = parse_lines [] (py_split (py_strip content) line_separator)"

text \<open>The lines for which the loop reaches \<open>files.append\<close>.\<close>

definition surviving_line :: "string \<Rightarrow> bool" where
  "surviving_line l =
     (let line = py_strip l in
      line \<noteq> [] \<and> \<not> startswith line ''#'' \<and> \<not> startswith line ''This document''
      \<and> (contains line ''/'' \<or> contains line ''.'') \<and> \<not> endswith line ''/'')"

text \<open>
  A surviving line in the words of the specification: after trimming it is non-blank,
  does not begin with a heading marker, contains a \<open>/\<close> or a \<open>.\<close>, and does not end
  with \<open>/\<close>.
\<close>

definition spec_surviving_line :: "string \<Rightarrow> bool" where
  "spec_surviving_line l =
     (let line = py_strip l in
      line \<noteq> [] \<and> \<not> startswith line ''#''
      \<and> (contains line ''/'' \<or> contains line ''.'') \<and> \<not> endswith line ''/'')"

text \<open>
  \<open>_parse_simple_format\<close> of the legacy generator (generate_structure.py), with its
  classifier \<open>_determine_file_type\<close>, which sees the file name only.
\<close>

definition legacy_determine_file_type :: "string \<Rightarrow> string" where
  "legacy_determine_file_type filename =
     (let ext = py_lower (path_suffix (Path filename));
          name = py_lower (stem (Path filename))
      in if filename = ''package.json'' then ''package''
         else if filename = ''tsconfig.json'' then ''tsconfig''
         else if filename = ''tsconfig.node.json'' then ''tsconfig_node''
         else if filename = ''vite.config.ts'' then ''vite_config''
         else if filename = ''jest.config.js'' then ''jest_config''
         else if contains filename ''.test.'' \<or> contains filename ''.spec.'' then ''test''
         else if endswith name ''controller'' then ''controller''
         else if endswith name ''service'' then ''service''
         else if endswith name ''repository'' then ''repository''
         else if endswith name ''model'' then ''model''
         else if endswith name ''component'' \<or> ext = ''.tsx'' then ''component''
         else if endswith name ''hook'' \<or> startswith name ''use'' then ''hook''
         else if contains name ''middleware'' then ''middleware''
         else if contains name ''route'' then ''route''
         else if ext = ''.sql'' then ''migration''
         else ''generic'')"

definition skip_items :: "string list" where
  "skip_items = [''README.md'', ''package-lock.json'', ''.env'', ''.env.example'',
                 ''.gitignore'', ''.eslintrc.js'', ''.prettierrc'']"

text \<open>\<open>line.split('/')[-1]\<close>; \<open>split\<close> never returns an empty list.\<close>

definition last_segment :: "string \<Rightarrow> string" where
  "last_segment line = last (py_split line ''/'')"

text \<open>\<open>line.split('#')[0]\<close>\<close>

definition before_hash :: "string \<Rightarrow> string" where
  "before_hash line = hd (py_split line ''#'')"

fun simple_lines :: "bool \<Rightarrow> (string \<times> string) list \<Rightarrow> string list \<Rightarrow> (string \<times> string) list" where
  "simple_lines in_file_list files [] = files"
| "simple_lines in_file_list files (l # ls) =
     (let line = py_strip l in
      if contains line ''## FILE_LIST'' then simple_lines True files ls
      else if \<not> in_file_list \<or> line = [] then simple_lines in_file_list files ls
      else if startswith line ''#'' then simple_lines in_file_list files ls
      else
        let line1 = (if startswith line ''- '' \<or> startswith line ''* ''
                     then py_strip (drop 2 line) else line);
            line2 = (if contains line1 ''#'' then py_strip (before_hash line1) else line1)
        in if \<not> contains line2 ''/'' \<and> \<not> contains line2 ''.''
             then simple_lines in_file_list files ls
           else
             let filename = last_segment line2 in
             if filename \<in> set skip_items then simple_lines in_file_list files ls
             else if contains filename ''.'' \<and> \<not> startswith filename ''.''
               then simple_lines in_file_list
                      (files @ [(line2, legacy_determine_file_type filename)]) ls
             else simple_lines in_file_list files ls)"

definition parse_simple_format :: "string \<Rightarrow> (string \<times> string) list" where
  "parse_simple_format content = simple_lines False [] (py_split content [CHR 0x0A])"

section \<open>The file system\<close>

text \<open>
  The disk is a tree of nodes under their canonical keys, the lists of names from the
  directory where the process runs, which is taken to be the root of the tree: a path is
  resolved from there whether it is relative or absolute, and \<open>..\<close> at the top stays at
  the top. The root is a directory. There are no symbolic links, names are valid, and a
  call fails only for the reasons below.
\<close>

datatype node = File string | Dir

type_synonym filesys = "string list \<Rightarrow> node option"

datatype errno = ENOENT | ENOTDIR | EEXIST | EISDIR

definition node_at :: "filesys \<Rightarrow> string list \<Rightarrow> node option" where
  "node_at disk k = (if k = [] then Some Dir else disk k)"

text \<open>
  Path resolution, one component at a time: the place reached so far must be a directory
  before the next component is taken, and \<open>..\<close> steps to its parent.
\<close>

fun walk :: "filesys \<Rightarrow> string list \<Rightarrow> string list \<Rightarrow> errno + string list" where
  "walk disk cur [] = Inr cur"
| "walk disk cur (c # cs) =
     (case node_at disk cur of
        None \<Rightarrow> Inl ENOENT
      | Some (File x) \<Rightarrow> Inl ENOTDIR
      | Some Dir \<Rightarrow> walk disk (if c = ''..'' then butlast cur else cur @ [c]) cs)"

text \<open>\<open>os.stat\<close>\<close>

definition lookup :: "filesys \<Rightarrow> ppath \<Rightarrow> errno + node" where
  "lookup disk p =
     (case walk disk [] (pnames p) of
        Inl e \<Rightarrow> Inl e
      | Inr k \<Rightarrow> (case node_at disk k of None \<Rightarrow> Inl ENOENT | Some n \<Rightarrow> Inr n))"

text \<open>\<open>p.exists()\<close> and \<open>p.is_dir()\<close> answer False when \<open>stat\<close> fails.\<close>

definition path_exists :: "filesys \<Rightarrow> ppath \<Rightarrow> bool" where
  "path_exists disk p = (case lookup disk p of Inl e \<Rightarrow> False | Inr n \<Rightarrow> True)"

definition is_dir :: "filesys \<Rightarrow> ppath \<Rightarrow> bool" where
  "is_dir disk p = (lookup disk p = Inr Dir)"

text \<open>
  \<open>st_size\<close>: the length of a file's content; for a directory, the size \<open>dsz\<close> the platform
  reports.
\<close>

definition st_size :: "nat \<Rightarrow> node \<Rightarrow> nat" where
  "st_size dsz n = (case n of File content \<Rightarrow> length content | Dir \<Rightarrow> dsz)"

text \<open>\<open>os.mkdir\<close>\<close>

definition os_mkdir :: "filesys \<Rightarrow> ppath \<Rightarrow> errno + filesys" where
  "os_mkdir disk p =
     (case walk disk [] (pnames p) of
        Inl e \<Rightarrow> Inl e
      | Inr k \<Rightarrow> (case node_at disk k of
                    Some n \<Rightarrow> Inl EEXIST
                  | None \<Rightarrow> Inr (disk(k \<mapsto> Dir))))"

text \<open>
  \<open>Path.mkdir(parents=False, exist_ok=True)\<close>: \<open>FileNotFoundError\<close> is raised again; any
  other \<open>OSError\<close> is swallowed when the path is a directory. The result is the disk and
  the error raised, if any.
\<close>

definition mkdir_exist_ok :: "filesys \<Rightarrow> ppath \<Rightarrow> filesys \<times> errno option" where
  "mkdir_exist_ok disk p =
     (case os_mkdir disk p of
        Inr disk' \<Rightarrow> (disk', None)
      | Inl e \<Rightarrow> if e = ENOENT then (disk, Some ENOENT)
                 else if is_dir disk p then (disk, None) else (disk, Some e))"

text \<open>
  \<open>Path.mkdir(parents=True, exist_ok=True)\<close>: on \<open>FileNotFoundError\<close> the parent is made
  first, unless the path is its own parent, and the path is made after it.
\<close>

function mkdir_parents :: "filesys \<Rightarrow> ppath \<Rightarrow> filesys \<times> errno option" where
  "mkdir_parents disk p =
     (case os_mkdir disk p of
        Inr disk' \<Rightarrow> (disk', None)
      | Inl e \<Rightarrow>
          if e = ENOENT then
            (if parent p = p then (disk, Some ENOENT)
             else (case mkdir_parents disk (parent p) of
                     (disk1, Some e1) \<Rightarrow> (disk1, Some e1)
                   | (disk1, None) \<Rightarrow> mkdir_exist_ok disk1 p))
          else if is_dir disk p then (disk, None) else (disk, Some e))"
  by pat_completeness auto
termination
proof (relation "measure (\<lambda>(disk, p). length (pnames p))")
  show "wf (measure (\<lambda>(disk, p). length (pnames p)))" by simp
next
  fix disk :: filesys and p :: ppath and e :: errno
  assume "parent p \<noteq> p"
  then have "pnames p \<noteq> []" by (cases p) (auto simp: parent_def)
  then show "((disk, parent p), (disk, p)) \<in> measure (\<lambda>(disk, p). length (pnames p))"
    by (simp add: parent_def)
qed

declare mkdir_parents.simps [simp del]

text \<open>
  \<open>open(p, 'w')\<close> followed by \<open>f.write(content)\<close>: the file is created or replaced; opening
  a directory, or a path that does not resolve, raises.
\<close>

definition write_file :: "filesys \<Rightarrow> ppath \<Rightarrow> string \<Rightarrow> errno + filesys" where
  "write_file disk p content =
     (case walk disk [] (pnames p) of
        Inl e \<Rightarrow> Inl e
      | Inr k \<Rightarrow> (case node_at disk k of
                    Some Dir \<Rightarrow> Inl EISDIR
                  | _ \<Rightarrow> Inr (disk(k \<mapsto> File content))))"

section \<open>The driver\<close>

text \<open>
  The state of a run of \<open>ProjectGenerator\<close> (v2/generate_structure_v2.py): the disk and the
  two lists of the generator.
\<close>

record run_state =
  fsys :: filesys
  created_files :: "string list"
  skipped_files :: "string list"

text \<open>
  \<open>TemplateFactory.generate_content\<close>. The bodies of the templates are a parameter:
  \<open>render key file_path file_type\<close> is the text of the template registered under \<open>key\<close>,
  or of \<open>_generate_generic_template\<close> when none is, and \<open>None\<close> when it raises.
\<close>

definition generate_content ::
  "(string \<Rightarrow> ppath \<Rightarrow> string \<Rightarrow> string option) \<Rightarrow> ppath \<Rightarrow> string \<Rightarrow> string option" where
  "generate_content render file_path file_type =
     render (template_key file_path file_type) file_path file_type"

text \<open>
  \<open>ProjectGenerator._create_file\<close>. An error of \<open>mkdir\<close> is not caught and leaves the
  function, which is the second component of the result; what \<open>generate_content\<close> or the
  write raise is caught and printed.
\<close>

definition create_file ::
  "(string \<Rightarrow> ppath \<Rightarrow> string \<Rightarrow> string option) \<Rightarrow> nat \<Rightarrow> ppath \<Rightarrow> run_state
     \<Rightarrow> string \<Rightarrow> string \<Rightarrow> run_state \<times> errno option" where
  "create_file render dsz base_path st relative_path file_type =
     (let full_path = joinpath base_path (Path relative_path) in
      case mkdir_parents (fsys st) (parent full_path) of
        (disk1, Some e) \<Rightarrow> (st\<lparr>fsys := disk1\<rparr>, Some e)
      | (disk1, None) \<Rightarrow>
          if (case lookup disk1 full_path of Inl e \<Rightarrow> False | Inr n \<Rightarrow> 0 < st_size dsz n)
          then (st\<lparr>fsys := disk1,
                   skipped_files := skipped_files st @ [path_str full_path]\<rparr>, None)
          else
            (case generate_content render full_path file_type of
               None \<Rightarrow> (st\<lparr>fsys := disk1\<rparr>, None)
             | Some content \<Rightarrow>
                 (case write_file disk1 full_path content of
                    Inl e \<Rightarrow> (st\<lparr>fsys := disk1\<rparr>, None)
                  | Inr disk2 \<Rightarrow>
                      (st\<lparr>fsys := disk2,
                          created_files := created_files st @ [path_str full_path]\<rparr>,
                       None))))"

text \<open>The loop of \<open>_generate_from_structure\<close> over the parsed entries.\<close>

fun create_files ::
  "(string \<Rightarrow> ppath \<Rightarrow> string \<Rightarrow> string option) \<Rightarrow> nat \<Rightarrow> ppath \<Rightarrow> run_state
     \<Rightarrow> (string \<times> string) list \<Rightarrow> run_state \<times> errno option" where
  "create_files render dsz base_path st [] = (st, None)"
| "create_files render dsz base_path st ((file_path, file_type) # files) =
     (case create_file render dsz base_path st file_path file_type of
        (st1, Some e) \<Rightarrow> (st1, Some e)
      | (st1, None) \<Rightarrow> create_files render dsz base_path st1 files)"

text \<open>
  Reading a file opened in text mode, as \<open>open(structure_file, 'r')\<close> does: a carriage
  return followed by a line feed, and a carriage return alone, reach the program as one
  line feed.
\<close>

fun universal_newlines :: "string \<Rightarrow> string" where
  "universal_newlines [] = []"
| "universal_newlines (c # cs) =
     (if c = CHR 0x0D then
        (case cs of
           [] \<Rightarrow> [CHR 0x0A]
         | d # ds \<Rightarrow> if d = CHR 0x0A then CHR 0x0A # universal_newlines ds
                     else CHR 0x0A # universal_newlines (d # ds))
      else c # universal_newlines cs)"

text \<open>
  \<open>StructureParser.parse_structure_file\<close>: \<open>FileNotFoundError\<close> when the document does not
  exist, and the error of \<open>open\<close> when it is a directory; otherwise the text that \<open>read\<close>
  returns goes to the parser.
\<close>

definition parse_structure_file :: "filesys \<Rightarrow> ppath \<Rightarrow> errno + (string \<times> string) list" where
  "parse_structure_file disk structure_file =
     (if \<not> path_exists disk structure_file then Inl ENOENT
      else case lookup disk structure_file of
             Inr (File content) \<Rightarrow> Inr (parse_content (universal_newlines content))
           | Inr Dir \<Rightarrow> Inl EISDIR
           | Inl e \<Rightarrow> Inl e)"

text \<open>
  \<open>_generate_from_structure\<close>: an exception of the parser is caught and printed, and the
  function returns.
\<close>

definition generate_from_structure ::
  "(string \<Rightarrow> ppath \<Rightarrow> string \<Rightarrow> string option) \<Rightarrow> nat \<Rightarrow> run_state \<Rightarrow> ppath \<Rightarrow> ppath
     \<Rightarrow> run_state \<times> errno option" where
  "generate_from_structure render dsz st structure_file base_path =
     (case parse_structure_file (fsys st) structure_file of
        Inl e \<Rightarrow> (st, None)
      | Inr files \<Rightarrow> create_files render dsz base_path st files)"

definition structure_file_of :: "ppath \<Rightarrow> string \<Rightarrow> ppath" where
  "structure_file_of project_root project =
     joinpath (joinpath (joinpath project_root (Path project)) (Path ''docs''))
       (Path ''PROJECT_STRUCTURE_SIMPLE.md'')"

definition base_path_of :: "ppath \<Rightarrow> string \<Rightarrow> ppath" where
  "base_path_of project_root project =
     joinpath (joinpath project_root (Path project)) (Path ''app'')"

text \<open>\<open>_generate_frontend\<close> and \<open>_generate_backend\<close>\<close>

definition generate_frontend ::
  "(string \<Rightarrow> ppath \<Rightarrow> string \<Rightarrow> string option) \<Rightarrow> nat \<Rightarrow> ppath \<Rightarrow> run_state
     \<Rightarrow> run_state \<times> errno option" where
  "generate_frontend render dsz project_root st =
     generate_from_structure render dsz st (structure_file_of project_root ''frontend'')
       (base_path_of project_root ''frontend'')"

definition generate_backend ::
  "(string \<Rightarrow> ppath \<Rightarrow> string \<Rightarrow> string option) \<Rightarrow> nat \<Rightarrow> ppath \<Rightarrow> run_state
     \<Rightarrow> run_state \<times> errno option" where
  "generate_backend render dsz project_root st =
     generate_from_structure render dsz st (structure_file_of project_root ''backend'')
       (base_path_of project_root ''backend'')"

text \<open>
  \<open>generate_project\<close>: what leaves it is an \<open>OSError\<close> of \<open>mkdir\<close> or the \<open>ValueError\<close> of an
  unknown project type.
\<close>

datatype failure = OSError errno | ValueError

definition generate_project ::
  "(string \<Rightarrow> ppath \<Rightarrow> string \<Rightarrow> string option) \<Rightarrow> nat \<Rightarrow> ppath \<Rightarrow> run_state \<Rightarrow> string
     \<Rightarrow> run_state \<times> failure option" where
  "generate_project render dsz project_root st project_type =
     (if project_type = ''frontend'' then
        (case generate_frontend render dsz project_root st of
           (st1, r) \<Rightarrow> (st1, map_option OSError r))
      else if project_type = ''backend'' then
        (case generate_backend render dsz project_root st of
           (st1, r) \<Rightarrow> (st1, map_option OSError r))
      else if project_type = ''all'' then
        (case generate_frontend render dsz project_root st of
           (st1, Some e) \<Rightarrow> (st1, Some (OSError e))
         | (st1, None) \<Rightarrow>
             (case generate_backend render dsz project_root st1 of
                (st2, r) \<Rightarrow> (st2, map_option OSError r)))
      else (st, Some ValueError))"

text \<open>
  \<open>main\<close>, from the parsed arguments to the exit status and the final state; the summary
  it prints on a normal return gives the lengths of the two lists.
\<close>

record args =
  arg_all :: bool
  arg_frontend :: bool
  arg_backend :: bool
  arg_project_root :: string

definition project_type_of :: "args \<Rightarrow> string" where
  "project_type_of a =
     (if arg_all a then ''all''
      else if arg_frontend a then ''frontend''
      else if arg_backend a then ''backend''
      else ''all'')"

definition main ::
  "(string \<Rightarrow> ppath \<Rightarrow> string \<Rightarrow> string option) \<Rightarrow> nat \<Rightarrow> filesys \<Rightarrow> args
     \<Rightarrow> nat \<times> run_state" where
  "main render dsz disk0 a =
     (let generator = \<lparr>fsys = disk0, created_files = [], skipped_files = []\<rparr> in
      case generate_project render dsz (Path (arg_project_root a)) generator
             (project_type_of a) of
        (st, Some f) \<Rightarrow> (1, st)
      | (st, None) \<Rightarrow> (0, st))"

definition summary :: "run_state \<Rightarrow> nat \<times> nat" where
  "summary st = (length (created_files st), length (skipped_files st))"

text \<open>
  Growth of the disk: a directory stays a directory and a non-empty file keeps its
  content.
\<close>

definition disk_le :: "filesys \<Rightarrow> filesys \<Rightarrow> bool" where
  "disk_le a b =
     (\<forall>k. (a k = Some Dir \<longrightarrow> b k = Some Dir)
        \<and> (\<forall>c. a k = Some (File c) \<and> c \<noteq> [] \<longrightarrow> b k = Some (File c)))"

text \<open>The destination of an entry, and the entries the existence check skips.\<close>

definition dest :: "ppath \<Rightarrow> string \<times> string \<Rightarrow> ppath" where
  "dest base_path entry = joinpath base_path (Path (fst entry))"

definition present :: "nat \<Rightarrow> filesys \<Rightarrow> ppath \<Rightarrow> string \<times> string \<Rightarrow> bool" where
  "present dsz d base_path entry =
     (case lookup d (dest base_path entry) of Inl e \<Rightarrow> False | Inr n \<Rightarrow> 0 < st_size dsz n)"

text \<open>
  An entry is settled on a disk when its parent directory is there and the entry is
  skipped, or cannot be written, or has no content to write.
\<close>

definition settled ::
  "(string \<Rightarrow> ppath \<Rightarrow> string \<Rightarrow> string option) \<Rightarrow> nat \<Rightarrow> filesys \<Rightarrow> ppath
     \<Rightarrow> string \<times> string \<Rightarrow> bool" where
  "settled render dsz d base_path entry =
     (lookup d (parent (dest base_path entry)) = Inr Dir
      \<and> (present dsz d base_path entry
         \<or> lookup d (dest base_path entry) = Inr Dir
         \<or> generate_content render (dest base_path entry) (snd entry) = None))"


section \<open>Example inputs\<close>

text \<open>
  A template body that always returns the same non-empty text, and small disks: one with
  the application directory and one source file, one with the structure document of the
  backend only, one with a file where an entry needs a directory, one with the structure
  document of the frontend only, and one whose backend document lists \<open>README.md\<close>.
\<close>

definition example_render :: "string \<Rightarrow> ppath \<Rightarrow> string \<Rightarrow> string option" where
  "example_render key file_path file_type = Some ''// TODO''"

definition example_disk :: filesys where
  "example_disk =
     Map.empty([''app''] \<mapsto> Dir, [''app'', ''src''] \<mapsto> Dir,
               [''app'', ''src'', ''a.ts''] \<mapsto> File ''export {}'')"




definition readme_disk :: filesys where
  "readme_disk =
     Map.empty([''backend''] \<mapsto> Dir, [''backend'', ''docs''] \<mapsto> Dir,
               [''backend'', ''docs'', ''PROJECT_STRUCTURE_SIMPLE.md'']
                 \<mapsto> File ''README.md'')"

definition fresh_state :: "filesys \<Rightarrow> run_state" where
  "fresh_state d = \<lparr>fsys = d, created_files = [], skipped_files = []\<rparr>"

definition default_args :: args where
  "default_args =
     \<lparr>arg_all = False, arg_frontend = False, arg_backend = False, arg_project_root = ''.''\<rparr>"

section \<open>Properties\<close>

subsection \<open>Import references\<close>

text \<open>
  C1 (as the code has it). For the test file
  \<open>frontend/app/src/tests/unit/components/auth/Login.test.tsx\<close> and the stem \<open>Login\<close> the
  legacy resolver \<open>_calculate_test_import_path\<close> returns
  \<open>../../../../components/auth/Login\<close>: the grouping segment \<open>unit\<close> is dropped from the
  segments that follow the climb, and the climb has one \<open>../\<close> for every directory
  between the file and the parent of \<open>tests\<close>, which is four.
\<close>

theorem calculate_test_import_path_login:
  "calculate_test_import_path
     (Path ''frontend/app/src/tests/unit/components/auth/Login.test.tsx'') ''Login''
   = ''../../../../components/auth/Login''"
  by code_simp

text \<open>
  C1 as stated fails: neither resolver returns the three-level reference
  \<open>../../../components/auth/Login\<close> for that input.
\<close>

theorem import_path_three_levels_counterexample:
  "calculate_test_import_path
     (Path ''frontend/app/src/tests/unit/components/auth/Login.test.tsx'') ''Login''
   \<noteq> ''../../../components/auth/Login''
   \<and> calculate_component_import
     (Path ''frontend/app/src/tests/unit/components/auth/Login.test.tsx'') ''Login''
   \<noteq> ''../../../components/auth/Login''"
  by code_simp

text \<open>
  The resolver of the v2 templates keeps the \<open>unit\<close> segment and climbs four levels.
\<close>

lemma calculate_component_import_login:
  "calculate_component_import
     (Path ''frontend/app/src/tests/unit/components/auth/Login.test.tsx'') ''Login''
   = ''../../../../unit/components/auth/Login''"
  by code_simp

subsection \<open>Classification\<close>

lemma determine_file_type_in_file_types: "determine_file_type p \<in> set file_types"
  unfolding determine_file_type_def file_types_def Let_def by simp

lemma determine_file_type_generic_iff:
  "(determine_file_type p = ''generic'') = (\<not> matches_some_rule p)"
  unfolding determine_file_type_def matches_some_rule_def Let_def by simp

text \<open>
  C3 (as the code has it). Classification is a total function of the path string: it
  returns, without raising, exactly one tag, and the tag is one of the twenty-two of
  \<open>file_types\<close>, which has \<open>vite_config\<close>, \<open>jest_config\<close>, \<open>tailwind_config\<close>, \<open>page\<close>,
  \<open>base_model\<close> and \<open>base_repository\<close> besides the sixteen of the specification. The
  tag is \<open>generic\<close> exactly when no rule matches. Being a function of the path alone, it
  gives the same tag on every call.
\<close>

theorem determine_file_type_total:
  "determine_file_type p \<in> set file_types
   \<and> (\<not> matches_some_rule p \<longrightarrow> determine_file_type p = ''generic'')
   \<and> (matches_some_rule p \<longrightarrow> determine_file_type p \<noteq> ''generic'')"
  using determine_file_type_in_file_types [of p] determine_file_type_generic_iff [of p]
  by simp

theorem determine_file_type_total_witness:
  "\<not> matches_some_rule ''src/app.ts'' \<and> determine_file_type ''src/app.ts'' = ''generic''
   \<and> matches_some_rule ''src/models/User.ts''
   \<and> determine_file_type ''src/models/User.ts'' \<noteq> ''generic''"
proof -
  have a: "\<not> matches_some_rule ''src/app.ts''" by code_simp
  have b: "matches_some_rule ''src/models/User.ts''" by code_simp
  show ?thesis
    using a b determine_file_type_total [of "''src/app.ts''"]
      determine_file_type_total [of "''src/models/User.ts''"]
    by blast
qed

text \<open>
  C3 as stated fails: a path under \<open>/pages/\<close> is tagged \<open>page\<close>, which is not in the
  tag set of the specification.
\<close>

theorem determine_file_type_page_counterexample:
  "determine_file_type ''src/pages/Home.tsx'' = ''page''
   \<and> determine_file_type ''src/pages/Home.tsx'' \<notin> set spec_file_types"
  by code_simp

subsection \<open>Template keys\<close>

text \<open>
  C4. The path \<open>backend/app/src/services/UserService.ts\<close> resolves to the backend service
  key. The path \<open>frontend/app/src/services/BaseService.ts\<close> does not resolve to the
  frontend base-service key: \<open>get_project_type\<close> looks for the text \<open>/frontend/\<close>, which a
  path that starts with the segment \<open>frontend\<close> does not contain, so the project type is
  \<open>unknown\<close> and the key is the backend one.
\<close>

theorem template_key_services:
  "get_project_type (Path ''frontend/app/src/services/BaseService.ts'') = ''unknown''
   \<and> template_key (Path ''frontend/app/src/services/BaseService.ts'')
        (determine_file_type ''frontend/app/src/services/BaseService.ts'')
      = ''backend_base_service''
   \<and> template_key (Path ''backend/app/src/services/UserService.ts'')
        (determine_file_type ''backend/app/src/services/UserService.ts'')
      = ''backend_service''"
  by code_simp

subsection \<open>Class names\<close>

text \<open>
  C8. For the controller entry \<open>src/controllers/UserController.ts\<close> the name derivation
  of the v2 templates gives \<open>Usercontroller\<close>: \<open>capitalize\<close> upper-cases the first letter
  of each word and lower-cases the others, so the content declares
  \<open>export class Usercontroller\<close>. The legacy generator declares \<open>UserController\<close>.
\<close>

theorem controller_class_name:
  "get_class_name_from_filename (stem (Path ''src/controllers/UserController.ts''))
     = ''Usercontroller''
   \<and> contains (ControllerTemplate_declaration (Path ''src/controllers/UserController.ts''))
        ''export class Usercontroller extends BaseController''
   \<and> \<not> contains (ControllerTemplate_declaration (Path ''src/controllers/UserController.ts''))
        ''UserController''
   \<and> contains (legacy_controller_declaration (Path ''src/controllers/UserController.ts''))
        ''export class UserController extends BaseController''"
  by code_simp

subsection \<open>Parsing\<close>

lemma last_dropWhile_nonempty: "dropWhile P xs \<noteq> [] \<Longrightarrow> last (dropWhile P xs) = last xs"
  by (metis last_appendR takeWhile_dropWhile_id)

lemma dropWhile_py_strip: "dropWhile is_space (py_strip s) = py_strip s"
proof (cases "py_strip s = []")
  case True
  then show ?thesis by simp
next
  case False
  define u where "u = dropWhile is_space s"
  define v where "v = dropWhile is_space (rev u)"
  have t: "py_strip s = rev v" by (simp add: py_strip_def u_def v_def)
  with False have v: "v \<noteq> []" by simp
  then have ru: "rev u \<noteq> []" by (auto simp: v_def)
  then have u: "u \<noteq> []" by simp
  have "last v = last (rev u)" using v unfolding v_def by (rule last_dropWhile_nonempty)
  also have "\<dots> = hd u" using u by (simp add: last_rev)
  finally have "hd (rev v) = hd u" using v by (simp add: hd_rev)
  moreover have "\<not> is_space (hd u)" using u unfolding u_def by (metis hd_dropWhile)
  ultimately have "\<not> is_space (hd (rev v))" by simp
  then have "dropWhile is_space (rev v) = rev v" using v by (cases "rev v") auto
  then show ?thesis by (simp add: t)
qed

lemma py_strip_idem: "py_strip (py_strip s) = py_strip s"
proof -
  have "py_strip (py_strip s) = rev (dropWhile is_space (rev (py_strip s)))"
    unfolding py_strip_def [of "py_strip s"] by (simp add: dropWhile_py_strip)
  also have "\<dots> = py_strip s" by (simp add: py_strip_def)
  finally show ?thesis .
qed

lemma split_acc_nonempty: "split_acc sep acc s \<noteq> []"
  by (induction sep acc s rule: split_acc.induct) auto

lemma prefix_hashes:
  "prefix ''##'' s \<Longrightarrow> prefix ''#'' s" "prefix ''###'' s \<Longrightarrow> prefix ''#'' s"
  by (auto simp: prefix_def)

lemma parse_lines_eq:
  "parse_lines files ls
   = files @ map (\<lambda>l. (py_strip l, determine_file_type (py_strip l)))
               (filter surviving_line ls)"
proof (induction ls arbitrary: files)
  case Nil
  show ?case by simp
next
  case (Cons l ls)
  show ?case
    by (auto simp: Cons.IH surviving_line_def Let_def py_strip_idem startswith_def
          dest: prefix_hashes)
qed

text \<open>
  C5. The loop itself emits one entry per surviving line of the list it is given, in order
  and without de-duplication (\<open>parse_lines_eq\<close>), but the list is not the lines of the
  document: the v2 parser splits the text at the two characters backslash and n. For the
  document of the two lines \<open>src/a.ts\<close> and \<open>src/b.ts\<close>, separated by a line feed, both
  lines survive by the words of the specification, and the parser emits one entry, whose
  path is the whole text. The legacy parser, which splits at the line feed, emits the two
  entries.
\<close>

theorem parse_content_line_feed_document:
  "parse_content (universal_newlines (''src/a.ts'' @ [CHR 0x0A] @ ''src/b.ts''))
     = [(''src/a.ts'' @ [CHR 0x0A] @ ''src/b.ts'', ''generic'')]
   \<and> filter spec_surviving_line (py_split (''src/a.ts'' @ [CHR 0x0A] @ ''src/b.ts'') [CHR 0x0A])
     = [''src/a.ts'', ''src/b.ts'']
   \<and> parse_simple_format
       (''## FILE_LIST'' @ [CHR 0x0A] @ ''src/a.ts'' @ [CHR 0x0A] @ ''src/b.ts'')
     = [(''src/a.ts'', ''generic''), (''src/b.ts'', ''generic'')]"
  by code_simp

text \<open>
  The loop on a list of lines: headings, directories, prose and words without a \<open>/\<close> or a
  \<open>.\<close> are dropped, and a path listed twice is emitted twice.
\<close>

lemma parse_lines_example:
  "parse_lines [] [''# Files'', ''  src/models/User.ts '', ''docs/'', ''notes'',
                   ''This document lists src/a.ts'', ''src/models/User.ts'']
   = [(''src/models/User.ts'', ''model''), (''src/models/User.ts'', ''model'')]"
  by code_simp

lemma filter_keep_nonempty: "xs \<noteq> [] \<Longrightarrow> P (last xs) \<Longrightarrow> filter P xs \<noteq> []"
  by (induction xs) (auto split: if_splits)

lemma last_filter_keep: "xs \<noteq> [] \<Longrightarrow> P (last xs) \<Longrightarrow> last (filter P xs) = last xs"
proof (induction xs)
  case Nil
  then show ?case by simp
next
  case (Cons a xs)
  show ?case
  proof (cases "xs = []")
    case True
    with Cons.prems show ?thesis by simp
  next
    case False
    with Cons.prems have "P (last xs)" by simp
    with False have "filter P xs \<noteq> []" and "last (filter P xs) = last xs"
      using filter_keep_nonempty [of xs P] Cons.IH by auto
    with False show ?thesis by simp
  qed
qed

lemma name_Path_last_segment:
  assumes "contains (last_segment p) ''.''" and "\<not> startswith (last_segment p) ''.''"
  shows "name (Path p) = last_segment p"
proof -
  let ?xs = "py_split p ''/''"
  let ?P = "\<lambda>n. n \<noteq> '''' \<and> n \<noteq> ''.''"
  have ne: "?xs \<noteq> []" by (simp add: py_split_def split_acc_nonempty)
  have "last ?xs \<noteq> ''''" using assms(1) by (auto simp: last_segment_def)
  moreover have "last ?xs \<noteq> ''.''" using assms(2) by (auto simp: last_segment_def startswith_def)
  ultimately have P: "?P (last ?xs)" by simp
  show ?thesis
    using last_filter_keep [of ?xs ?P, OF ne P] filter_keep_nonempty [of ?xs ?P, OF ne P]
    by (simp add: name_def Path_def Let_def last_segment_def)
qed

lemma simple_lines_skip:
  "(p, t) \<in> set (simple_lines b files ls) \<Longrightarrow>
   (p, t) \<in> set files
   \<or> (last_segment p \<notin> set skip_items \<and> contains (last_segment p) ''.''
      \<and> \<not> startswith (last_segment p) ''.'')"
proof (induction ls arbitrary: files b)
  case Nil
  then show ?case by simp
next
  case (Cons l ls)
  from Cons.prems show ?case
    by (auto simp: Let_def split: if_splits dest!: Cons.IH)
qed

text \<open>
  The legacy parser \<open>_parse_simple_format\<close> never emits an entry whose file name is one of
  the blocked files \<open>README.md\<close>, \<open>package-lock.json\<close>, \<open>.env\<close>, \<open>.env.example\<close>,
  \<open>.gitignore\<close>, \<open>.eslintrc.js\<close>, \<open>.prettierrc\<close>, wherever the line stands in the
  document; nor does it emit any other name that starts with a dot. The file name is the
  last segment of the emitted path, which is also the name of the path the driver builds
  from it.
\<close>

lemma parse_simple_format_skips_blocked:
  "(p, t) \<in> set (parse_simple_format content) \<Longrightarrow>
   last_segment p \<notin> set skip_items \<and> name (Path p) \<notin> set skip_items
   \<and> \<not> startswith (name (Path p)) ''.''"
proof -
  assume "(p, t) \<in> set (parse_simple_format content)"
  then have a: "last_segment p \<notin> set skip_items" and b: "contains (last_segment p) ''.''"
    and c: "\<not> startswith (last_segment p) ''.''"
    using simple_lines_skip [of p t False "[]"] by (auto simp: parse_simple_format_def)
  from b c have "name (Path p) = last_segment p" by (rule name_Path_last_segment)
  with a c show ?thesis by simp
qed

lemma parse_simple_format_example:
  "parse_simple_format (''## FILE_LIST'' @ [CHR 0x0A] @ ''- README.md'' @ [CHR 0x0A]
          @ ''- src/UserController.ts # main'' @ [CHR 0x0A] @ ''docs/README.md''
          @ [CHR 0x0A] @ ''src/.env'')
   = [(''src/UserController.ts'', ''controller'')]"
  by code_simp

text \<open>
  C7. The v2 parser has no list of blocked files. For the document \<open>README.md\<close>, a name the
  legacy parser blocks and for which it emits nothing, the v2 parser emits an entry, and a
  run of the v2 driver on a disk whose backend document is that text creates
  \<open>backend/app/README.md\<close>.
\<close>

theorem parse_content_emits_blocked_file:
  "parse_content ''README.md'' = [(''README.md'', ''generic'')]
   \<and> ''README.md'' \<in> set skip_items
   \<and> parse_simple_format (''## FILE_LIST'' @ [CHR 0x0A] @ ''README.md'') = []
   \<and> created_files (snd (main example_render 4096 readme_disk default_args))
     = [''backend/app/README.md'']"
  by code_simp

subsection \<open>The disk only grows\<close>

lemma disk_le_refl: "disk_le a a"
  by (simp add: disk_le_def)

lemma disk_le_trans: "disk_le a b \<Longrightarrow> disk_le b c \<Longrightarrow> disk_le a c"
  unfolding disk_le_def by blast

lemma node_at_le_dir: "disk_le a b \<Longrightarrow> node_at a k = Some Dir \<Longrightarrow> node_at b k = Some Dir"
  by (auto simp: disk_le_def node_at_def split: if_splits)

lemma walk_le: "disk_le a b \<Longrightarrow> walk a cur cs = Inr k \<Longrightarrow> walk b cur cs = Inr k"
proof (induction cs arbitrary: cur)
  case Nil
  then show ?case by simp
next
  case (Cons c cs)
  from Cons.prems(2) have d: "node_at a cur = Some Dir"
    by (auto split: option.splits node.splits)
  with Cons.prems(1) have "node_at b cur = Some Dir" by (rule node_at_le_dir)
  with Cons d show ?case by simp
qed

lemma lookup_InrD:
  "lookup a p = Inr n \<Longrightarrow> \<exists>k. walk a [] (pnames p) = Inr k \<and> node_at a k = Some n"
  by (auto simp: lookup_def split: sum.splits option.splits)

lemma lookup_InrI:
  "walk a [] (pnames p) = Inr k \<Longrightarrow> node_at a k = Some n \<Longrightarrow> lookup a p = Inr n"
  by (simp add: lookup_def)

lemma node_at_le_file:
  "disk_le a b \<Longrightarrow> node_at a k = Some (File c) \<Longrightarrow> c \<noteq> [] \<Longrightarrow> node_at b k = Some (File c)"
  by (auto simp: disk_le_def node_at_def split: if_splits)

lemma lookup_le_dir: "disk_le a b \<Longrightarrow> lookup a p = Inr Dir \<Longrightarrow> lookup b p = Inr Dir"
proof -
  assume le: "disk_le a b" and l: "lookup a p = Inr Dir"
  from l obtain k where w: "walk a [] (pnames p) = Inr k" and n: "node_at a k = Some Dir"
    using lookup_InrD by blast
  from le w have "walk b [] (pnames p) = Inr k" by (rule walk_le)
  moreover from le n have "node_at b k = Some Dir" by (rule node_at_le_dir)
  ultimately show ?thesis by (rule lookup_InrI)
qed

lemma lookup_le_file:
  "disk_le a b \<Longrightarrow> lookup a p = Inr (File c) \<Longrightarrow> c \<noteq> [] \<Longrightarrow> lookup b p = Inr (File c)"
proof -
  assume le: "disk_le a b" and l: "lookup a p = Inr (File c)" and c: "c \<noteq> []"
  from l obtain k where w: "walk a [] (pnames p) = Inr k" and n: "node_at a k = Some (File c)"
    using lookup_InrD by blast
  from le w have "walk b [] (pnames p) = Inr k" by (rule walk_le)
  moreover from le n c have "node_at b k = Some (File c)" by (rule node_at_le_file)
  ultimately show ?thesis by (rule lookup_InrI)
qed

lemma present_le: "disk_le a b \<Longrightarrow> present dsz a base e \<Longrightarrow> present dsz b base e"
  unfolding present_def
  apply (cases "lookup a (dest base e)")
   apply simp
  subgoal for n
    apply (cases n)
     apply (auto simp: st_size_def dest: lookup_le_file lookup_le_dir)
    done
  done

lemma settled_le: "disk_le a b \<Longrightarrow> settled render dsz a base e \<Longrightarrow> settled render dsz b base e"
  unfolding settled_def by (auto dest: lookup_le_dir present_le)

lemma os_mkdir_le: "os_mkdir a p = Inr b \<Longrightarrow> disk_le a b"
  by (auto simp: os_mkdir_def disk_le_def node_at_def split: sum.splits option.splits if_splits)

lemma os_mkdir_dir: "os_mkdir a p = Inr b \<Longrightarrow> lookup b p = Inr Dir"
proof -
  assume m: "os_mkdir a p = Inr b"
  then obtain k where w: "walk a [] (pnames p) = Inr k" and n: "node_at a k = None"
    and b: "b = a(k \<mapsto> Dir)"
    by (auto simp: os_mkdir_def split: sum.splits option.splits)
  from m have "disk_le a b" by (rule os_mkdir_le)
  then have "walk b [] (pnames p) = Inr k" using w by (rule walk_le)
  moreover have "node_at b k = Some Dir" using b by (simp add: node_at_def)
  ultimately show ?thesis by (simp add: lookup_def)
qed

lemma mkdir_exist_ok_le: "mkdir_exist_ok a p = (b, r) \<Longrightarrow> disk_le a b"
  by (auto simp: mkdir_exist_ok_def disk_le_refl split: sum.splits if_splits dest: os_mkdir_le)

lemma mkdir_exist_ok_dir: "mkdir_exist_ok a p = (b, None) \<Longrightarrow> lookup b p = Inr Dir"
  by (auto simp: mkdir_exist_ok_def is_dir_def split: sum.splits if_splits dest: os_mkdir_dir)


lemma mkdir_parents_unfold_ok: "os_mkdir d p = Inr d' \<Longrightarrow> mkdir_parents d p = (d', None)"
  by (subst mkdir_parents.simps) simp

lemma mkdir_parents_unfold_other:
  "os_mkdir d p = Inl e \<Longrightarrow> e \<noteq> ENOENT \<Longrightarrow>
   mkdir_parents d p = (if is_dir d p then (d, None) else (d, Some e))"
  by (subst mkdir_parents.simps) simp

lemma mkdir_parents_unfold_top:
  "os_mkdir d p = Inl ENOENT \<Longrightarrow> parent p = p \<Longrightarrow> mkdir_parents d p = (d, Some ENOENT)"
  by (subst mkdir_parents.simps) simp

lemma mkdir_parents_unfold_rec:
  "os_mkdir d p = Inl ENOENT \<Longrightarrow> parent p \<noteq> p \<Longrightarrow>
   mkdir_parents d p =
     (case mkdir_parents d (parent p) of
        (disk1, Some e1) \<Rightarrow> (disk1, Some e1)
      | (disk1, None) \<Rightarrow> mkdir_exist_ok disk1 p)"
  by (subst mkdir_parents.simps) simp

lemma mkdir_parents_le: "mkdir_parents a p = (b, r) \<Longrightarrow> disk_le a b"
proof (induction a p arbitrary: b r rule: mkdir_parents.induct)
  case (1 d p)
  show ?case
  proof (cases "os_mkdir d p")
    case (Inr d')
    with "1.prems" have "b = d'" by (simp add: mkdir_parents_unfold_ok)
    with Inr show ?thesis by (simp add: os_mkdir_le)
  next
    case (Inl e)
    show ?thesis
    proof (cases "e = ENOENT")
      case False
      with Inl "1.prems" have "b = d"
        by (simp add: mkdir_parents_unfold_other split: if_splits)
      then show ?thesis by (simp add: disk_le_refl)
    next
      case True
      note enoent = Inl [unfolded True]
      show ?thesis
      proof (cases "parent p = p")
        case True
        with enoent "1.prems" have "b = d" by (simp add: mkdir_parents_unfold_top)
        then show ?thesis by (simp add: disk_le_refl)
      next
        case False
        obtain d1 r1 where rec: "mkdir_parents d (parent p) = (d1, r1)"
          by (cases "mkdir_parents d (parent p)")
        have le1: "disk_le d d1" using "1.IH" [OF Inl True False rec] .
        show ?thesis
        proof (cases r1)
          case (Some e1)
          with rec enoent False "1.prems" have "b = d1"
            by (simp add: mkdir_parents_unfold_rec)
          with le1 show ?thesis by simp
        next
          case None
          with rec enoent False "1.prems" have "mkdir_exist_ok d1 p = (b, r)"
            by (simp add: mkdir_parents_unfold_rec)
          then have "disk_le d1 b" by (rule mkdir_exist_ok_le)
          with le1 show ?thesis by (rule disk_le_trans)
        qed
      qed
    qed
  qed
qed

lemma mkdir_parents_dir: "mkdir_parents a p = (b, None) \<Longrightarrow> lookup b p = Inr Dir"
proof -
  assume m: "mkdir_parents a p = (b, None)"
  show ?thesis
  proof (cases "os_mkdir a p")
    case (Inr d')
    with m have "b = d'" by (simp add: mkdir_parents_unfold_ok)
    with Inr show ?thesis by (simp add: os_mkdir_dir)
  next
    case (Inl e)
    show ?thesis
    proof (cases "e = ENOENT")
      case False
      with Inl m show ?thesis
        by (simp add: mkdir_parents_unfold_other is_dir_def split: if_splits)
    next
      case True
      note enoent = Inl [unfolded True]
      show ?thesis
      proof (cases "parent p = p")
        case True
        with enoent m show ?thesis by (simp add: mkdir_parents_unfold_top)
      next
        case False
        obtain d1 r1 where rec: "mkdir_parents a (parent p) = (d1, r1)"
          by (cases "mkdir_parents a (parent p)")
        with enoent False m have "mkdir_exist_ok d1 p = (b, None)"
          by (cases r1) (simp_all add: mkdir_parents_unfold_rec)
        then show ?thesis by (rule mkdir_exist_ok_dir)
      qed
    qed
  qed
qed

lemma mkdir_parents_noop: "lookup a p = Inr Dir \<Longrightarrow> mkdir_parents a p = (a, None)"
proof -
  assume l: "lookup a p = Inr Dir"
  then obtain k where w: "walk a [] (pnames p) = Inr k" and n: "node_at a k = Some Dir"
    using lookup_InrD by blast
  then have "os_mkdir a p = Inl EEXIST" by (simp add: os_mkdir_def)
  then have "mkdir_parents a p = (if is_dir a p then (a, None) else (a, Some EEXIST))"
    by (rule mkdir_parents_unfold_other) simp
  with l show ?thesis by (simp add: is_dir_def)
qed


lemma walk_append:
  "walk d cur (xs @ ys) = (case walk d cur xs of Inl e \<Rightarrow> Inl e | Inr k \<Rightarrow> walk d k ys)"
  by (induction xs arbitrary: cur) (auto split: option.splits node.splits)

lemma lookup_parent_walk:
  assumes "lookup d (parent p) = Inr Dir"
  shows "\<exists>k. walk d [] (pnames p) = Inr k"
proof (cases "pnames p = []")
  case True
  then show ?thesis by simp
next
  case False
  from assms obtain kp where w: "walk d [] (butlast (pnames p)) = Inr kp"
    and n: "node_at d kp = Some Dir"
    using lookup_InrD [of d "parent p" Dir] by (auto simp: parent_def)
  from False have "pnames p = butlast (pnames p) @ [last (pnames p)]" by simp
  then have "walk d [] (pnames p) = walk d kp [last (pnames p)]"
    using w walk_append [of d "[]" "butlast (pnames p)" "[last (pnames p)]"] by simp
  with n show ?thesis by simp
qed

lemma lookup_walk_parent:
  assumes "lookup d p = Inr n"
  shows "lookup d (parent p) = Inr Dir"
proof (cases "pnames p = []")
  case True
  then show ?thesis by (simp add: lookup_def parent_def node_at_def)
next
  case False
  then have split: "pnames p = butlast (pnames p) @ [last (pnames p)]" by simp
  from assms obtain k where w: "walk d [] (pnames p) = Inr k" using lookup_InrD by blast
  then have a: "(case walk d [] (butlast (pnames p)) of Inl e \<Rightarrow> Inl e
              | Inr kp \<Rightarrow> walk d kp [last (pnames p)]) = Inr k"
    using walk_append [of d "[]" "butlast (pnames p)" "[last (pnames p)]"] split by simp
  then obtain kp where wp: "walk d [] (butlast (pnames p)) = Inr kp"
    and st: "walk d kp [last (pnames p)] = Inr k"
    by (cases "walk d [] (butlast (pnames p))") auto
  from st have "node_at d kp = Some Dir" by (auto split: option.splits node.splits)
  with wp show ?thesis by (simp add: lookup_def parent_def)
qed

lemma write_file_fail:
  assumes "write_file d p content = Inl e" and "lookup d (parent p) = Inr Dir"
  shows "lookup d p = Inr Dir"
proof -
  from assms(2) obtain k where w: "walk d [] (pnames p) = Inr k"
    using lookup_parent_walk by blast
  with assms(1) have "node_at d k = Some Dir"
    by (auto simp: write_file_def split: option.splits node.splits)
  with w show ?thesis by (rule lookup_InrI)
qed

lemma write_file_le:
  assumes "write_file d p content = Inr d2"
    and "\<not> (case lookup d p of Inl e \<Rightarrow> False | Inr n \<Rightarrow> 0 < st_size dsz n)"
  shows "disk_le d d2"
proof -
  from assms(1) obtain k where w: "walk d [] (pnames p) = Inr k"
    and nd: "node_at d k \<noteq> Some Dir" and d2: "d2 = d(k \<mapsto> File content)"
    by (auto simp: write_file_def split: sum.splits option.splits node.splits)
  from nd have k: "k \<noteq> []" by (auto simp: node_at_def)
  have "\<not> (\<exists>c. d k = Some (File c) \<and> c \<noteq> [])"
  proof
    assume "\<exists>c. d k = Some (File c) \<and> c \<noteq> []"
    then obtain c where c: "d k = Some (File c)" "c \<noteq> []" by blast
    with k w have "lookup d p = Inr (File c)" by (simp add: lookup_def node_at_def)
    with assms(2) c show False by (simp add: st_size_def)
  qed
  moreover from nd k have "d k \<noteq> Some Dir" by (simp add: node_at_def)
  ultimately show ?thesis unfolding disk_le_def d2 by auto
qed

lemma write_file_lookup:
  assumes "write_file d p content = Inr d2"
    and "\<not> (case lookup d p of Inl e \<Rightarrow> False | Inr n \<Rightarrow> 0 < st_size dsz n)"
  shows "lookup d2 p = Inr (File content)"
proof -
  from assms(1) obtain k where w: "walk d [] (pnames p) = Inr k"
    and nd: "node_at d k \<noteq> Some Dir" and d2: "d2 = d(k \<mapsto> File content)"
    by (auto simp: write_file_def split: sum.splits option.splits node.splits)
  from nd have k: "k \<noteq> []" by (auto simp: node_at_def)
  from assms have "disk_le d d2" by (rule write_file_le)
  then have "walk d2 [] (pnames p) = Inr k" using w by (rule walk_le)
  moreover from k have "node_at d2 k = Some (File content)" by (simp add: d2 node_at_def)
  ultimately show ?thesis by (rule lookup_InrI)
qed

lemma create_file_cases:
  assumes "create_file render dsz base st rel ft = (st', r)"
  obtains
    (abort) d1 e where "mkdir_parents (fsys st) (parent (dest base (rel, ft))) = (d1, Some e)"
      "st' = st\<lparr>fsys := d1\<rparr>" "r = Some e"
  | (skip) d1 where "mkdir_parents (fsys st) (parent (dest base (rel, ft))) = (d1, None)"
      "present dsz d1 base (rel, ft)"
      "st' = st\<lparr>fsys := d1,
                  skipped_files := skipped_files st @ [path_str (dest base (rel, ft))]\<rparr>"
      "r = None"
  | (norender) d1 where "mkdir_parents (fsys st) (parent (dest base (rel, ft))) = (d1, None)"
      "\<not> present dsz d1 base (rel, ft)"
      "generate_content render (dest base (rel, ft)) ft = None"
      "st' = st\<lparr>fsys := d1\<rparr>" "r = None"
  | (nowrite) d1 content e where
      "mkdir_parents (fsys st) (parent (dest base (rel, ft))) = (d1, None)"
      "\<not> present dsz d1 base (rel, ft)"
      "generate_content render (dest base (rel, ft)) ft = Some content"
      "write_file d1 (dest base (rel, ft)) content = Inl e"
      "st' = st\<lparr>fsys := d1\<rparr>" "r = None"
  | (written) d1 content d2 where
      "mkdir_parents (fsys st) (parent (dest base (rel, ft))) = (d1, None)"
      "\<not> present dsz d1 base (rel, ft)"
      "generate_content render (dest base (rel, ft)) ft = Some content"
      "write_file d1 (dest base (rel, ft)) content = Inr d2"
      "st' = st\<lparr>fsys := d2,
                  created_files := created_files st @ [path_str (dest base (rel, ft))]\<rparr>"
      "r = None"
proof -
  obtain d1 r1 where m: "mkdir_parents (fsys st) (parent (dest base (rel, ft))) = (d1, r1)"
    by (cases "mkdir_parents (fsys st) (parent (dest base (rel, ft)))")
  show thesis
  proof (cases r1)
    case (Some e)
    with m assms show thesis
      by (intro abort [of d1 e]) (simp_all add: create_file_def dest_def Let_def)
  next
    case None
    note m' = m [unfolded None]
    show thesis
    proof (cases "present dsz d1 base (rel, ft)")
      case True
      with m' assms show thesis
        by (intro skip [of d1]) (simp_all add: create_file_def dest_def Let_def present_def)
    next
      case False
      show thesis
      proof (cases "generate_content render (dest base (rel, ft)) ft")
        case None
        with m' False assms show thesis
          by (intro norender [of d1]) (simp_all add: create_file_def dest_def Let_def present_def)
      next
        case (Some content)
        show thesis
        proof (cases "write_file d1 (dest base (rel, ft)) content")
          case (Inl e)
          with m' False Some assms show thesis
            by (intro nowrite [of d1 content e])
               (simp_all add: create_file_def dest_def Let_def present_def)
        next
          case (Inr d2)
          with m' False Some assms show thesis
            by (intro written [of d1 content d2])
               (simp_all add: create_file_def dest_def Let_def present_def)
        qed
      qed
    qed
  qed
qed


lemma create_file_le:
  assumes "create_file render dsz base st rel ft = (st', r)"
  shows "disk_le (fsys st) (fsys st')"
  using assms
proof (cases rule: create_file_cases)
  case (written d1 content d2)
  from written(1) have "disk_le (fsys st) d1" by (rule mkdir_parents_le)
  moreover from written(4,2) have "disk_le d1 d2"
    by (intro write_file_le [of d1 _ content d2 dsz]) (simp_all add: present_def)
  ultimately show ?thesis using written(5) by (auto intro: disk_le_trans)
qed (auto dest: mkdir_parents_le)

lemma parent_dir_after_mkdir:
  "mkdir_parents d (parent p) = (d1, None) \<Longrightarrow> lookup d1 (parent p) = Inr Dir"
  by (rule mkdir_parents_dir)

lemma create_file_settled:
  assumes "create_file render dsz base st rel ft = (st', None)"
    and ne: "\<forall>k p t c. render k p t = Some c \<longrightarrow> c \<noteq> []"
  shows "settled render dsz (fsys st') base (rel, ft)"
  using assms(1)
proof (cases rule: create_file_cases)
  case (abort d1 e)
  then show ?thesis by simp
next
  case (skip d1)
  from skip(1) have "lookup d1 (parent (dest base (rel, ft))) = Inr Dir"
    by (rule mkdir_parents_dir)
  with skip show ?thesis by (simp add: settled_def)
next
  case (norender d1)
  from norender(1) have "lookup d1 (parent (dest base (rel, ft))) = Inr Dir"
    by (rule mkdir_parents_dir)
  with norender show ?thesis by (simp add: settled_def)
next
  case (nowrite d1 content e)
  from nowrite(1) have p: "lookup d1 (parent (dest base (rel, ft))) = Inr Dir"
    by (rule mkdir_parents_dir)
  with nowrite(4) have "lookup d1 (dest base (rel, ft)) = Inr Dir" by (rule write_file_fail)
  with p nowrite show ?thesis by (simp add: settled_def)
next
  case (written d1 content d2)
  from written(1) have p: "lookup d1 (parent (dest base (rel, ft))) = Inr Dir"
    by (rule mkdir_parents_dir)
  from written(2) have np: "\<not> (case lookup d1 (dest base (rel, ft)) of Inl e \<Rightarrow> False
                              | Inr n \<Rightarrow> 0 < st_size dsz n)"
    by (simp add: present_def)
  from written(4) np have le: "disk_le d1 d2" by (rule write_file_le)
  from written(4) np have l: "lookup d2 (dest base (rel, ft)) = Inr (File content)"
    by (rule write_file_lookup)
  from written(3) ne have "content \<noteq> []" by (auto simp: generate_content_def)
  with l have "present dsz d2 base (rel, ft)" by (simp add: present_def st_size_def)
  moreover from le p have "lookup d2 (parent (dest base (rel, ft))) = Inr Dir"
    by (rule lookup_le_dir)
  ultimately show ?thesis using written(5) by (simp add: settled_def)
qed

lemma create_file_lists:
  assumes "create_file render dsz base st rel ft = (st', None)"
    and ne: "\<forall>k p t c. render k p t = Some c \<longrightarrow> c \<noteq> []"
  shows "(created_files st' = created_files st \<and> skipped_files st' = skipped_files st)
         \<or> (present dsz (fsys st') base (rel, ft)
            \<and> ((created_files st' = created_files st @ [path_str (dest base (rel, ft))]
                 \<and> skipped_files st' = skipped_files st)
               \<or> (created_files st' = created_files st
                  \<and> skipped_files st' = skipped_files st @ [path_str (dest base (rel, ft))])))"
  using assms(1)
proof (cases rule: create_file_cases)
  case (written d1 content d2)
  from written(2) have np: "\<not> (case lookup d1 (dest base (rel, ft)) of Inl e \<Rightarrow> False
                              | Inr n \<Rightarrow> 0 < st_size dsz n)"
    by (simp add: present_def)
  from written(4) np have l: "lookup d2 (dest base (rel, ft)) = Inr (File content)"
    by (rule write_file_lookup)
  from written(3) ne have "content \<noteq> []" by (auto simp: generate_content_def)
  with l have "present dsz d2 base (rel, ft)" by (simp add: present_def st_size_def)
  with written(5) show ?thesis by simp
qed simp_all

lemma settled_create_file:
  assumes "settled render dsz (fsys st) base (rel, ft)"
  shows "create_file render dsz base st rel ft
         = (if present dsz (fsys st) base (rel, ft)
            then st\<lparr>skipped_files := skipped_files st @ [path_str (dest base (rel, ft))]\<rparr>
            else st, None)"
proof -
  let ?full = "dest base (rel, ft)"
  from assms have p: "lookup (fsys st) (parent ?full) = Inr Dir" by (simp add: settled_def)
  then have m: "mkdir_parents (fsys st) (parent ?full) = (fsys st, None)"
    by (rule mkdir_parents_noop)
  show ?thesis
  proof (cases "present dsz (fsys st) base (rel, ft)")
    case True
    with m show ?thesis by (simp add: create_file_def dest_def Let_def present_def)
  next
    case False
    show ?thesis
    proof (cases "generate_content render ?full ft")
      case None
      with m False show ?thesis by (simp add: create_file_def dest_def Let_def present_def)
    next
      case (Some content)
      with assms False have d: "lookup (fsys st) ?full = Inr Dir" by (simp add: settled_def)
      then obtain k where "walk (fsys st) [] (pnames ?full) = Inr k"
        and "node_at (fsys st) k = Some Dir"
        using lookup_InrD by blast
      then have "write_file (fsys st) ?full content = Inl EISDIR" by (simp add: write_file_def)
      with m False Some show ?thesis
        by (simp add: create_file_def dest_def Let_def present_def)
    qed
  qed
qed


lemma create_files_le:
  "create_files render dsz base st es = (st', r) \<Longrightarrow> disk_le (fsys st) (fsys st')"
proof (induction es arbitrary: st)
  case Nil
  then show ?case by (simp add: disk_le_refl)
next
  case (Cons e es)
  obtain rel ft where e: "e = (rel, ft)" by (cases e)
  obtain s1 r1 where c: "create_file render dsz base st rel ft = (s1, r1)"
    by (cases "create_file render dsz base st rel ft")
  then have le1: "disk_le (fsys st) (fsys s1)" by (rule create_file_le)
  show ?case
  proof (cases r1)
    case (Some err)
    with Cons.prems c e have "st' = s1" by simp
    with le1 show ?thesis by simp
  next
    case None
    with Cons.prems c e have "create_files render dsz base s1 es = (st', r)" by simp
    then have "disk_le (fsys s1) (fsys st')" by (rule Cons.IH)
    with le1 show ?thesis by (rule disk_le_trans)
  qed
qed

lemma create_files_settled:
  assumes ne: "\<forall>k p t c. render k p t = Some c \<longrightarrow> c \<noteq> []"
  shows "create_files render dsz base st es = (st', None) \<Longrightarrow>
         \<forall>e\<in>set es. settled render dsz (fsys st') base e"
proof (induction es arbitrary: st)
  case Nil
  then show ?case by simp
next
  case (Cons e es)
  obtain rel ft where e: "e = (rel, ft)" by (cases e)
  obtain s1 r1 where c: "create_file render dsz base st rel ft = (s1, r1)"
    by (cases "create_file render dsz base st rel ft")
  from Cons.prems c e have r1: "r1 = None" by (cases r1) auto
  with Cons.prems c e have rest: "create_files render dsz base s1 es = (st', None)" by simp
  from c r1 ne have "settled render dsz (fsys s1) base (rel, ft)"
    by (intro create_file_settled) simp_all
  moreover from rest have "disk_le (fsys s1) (fsys st')" by (rule create_files_le)
  ultimately have "settled render dsz (fsys st') base e" unfolding e by (rule settled_le [rotated])
  moreover from rest have "\<forall>e\<in>set es. settled render dsz (fsys st') base e" by (rule Cons.IH)
  ultimately show ?case by simp
qed

lemma create_files_of_settled:
  "\<forall>e\<in>set es. settled render dsz (fsys st) base e \<Longrightarrow>
   create_files render dsz base st es
   = (st\<lparr>skipped_files := skipped_files st
               @ map (\<lambda>e. path_str (dest base e)) (filter (present dsz (fsys st) base) es)\<rparr>,
      None)"
proof (induction es arbitrary: st)
  case Nil
  then show ?case by simp
next
  case (Cons e es)
  obtain rel ft where e: "e = (rel, ft)" by (cases e)
  from Cons.prems have s: "settled render dsz (fsys st) base (rel, ft)" by (simp add: e)
  show ?case
  proof (cases "present dsz (fsys st) base (rel, ft)")
    case True
    let ?s1 = "st\<lparr>skipped_files := skipped_files st @ [path_str (dest base (rel, ft))]\<rparr>"
    from s True have c: "create_file render dsz base st rel ft = (?s1, None)"
      by (simp add: settled_create_file)
    from Cons.prems have "\<forall>e\<in>set es. settled render dsz (fsys ?s1) base e" by simp
    then have "create_files render dsz base ?s1 es
      = (?s1\<lparr>skipped_files := skipped_files ?s1
               @ map (\<lambda>e. path_str (dest base e)) (filter (present dsz (fsys ?s1) base) es)\<rparr>,
         None)"
      by (rule Cons.IH)
    with c True show ?thesis by (simp add: e)
  next
    case False
    with s have c: "create_file render dsz base st rel ft = (st, None)"
      by (simp add: settled_create_file)
    from Cons.prems have "\<forall>e\<in>set es. settled render dsz (fsys st) base e" by simp
    then have "create_files render dsz base st es
      = (st\<lparr>skipped_files := skipped_files st
               @ map (\<lambda>e. path_str (dest base e)) (filter (present dsz (fsys st) base) es)\<rparr>,
         None)"
      by (rule Cons.IH)
    with c False show ?thesis by (simp add: e)
  qed
qed

lemma create_files_lists:
  assumes ne: "\<forall>k p t c. render k p t = Some c \<longrightarrow> c \<noteq> []"
  shows "create_files render dsz base st es = (st', None) \<Longrightarrow>
         \<exists>cs ss. created_files st' = created_files st @ cs
           \<and> skipped_files st' = skipped_files st @ ss
           \<and> set cs \<union> set ss
               \<subseteq> (\<lambda>e. path_str (dest base e)) ` {e \<in> set es. present dsz (fsys st') base e}
           \<and> length cs \<le> length es
           \<and> (length cs = length es \<longrightarrow>
                 cs = map (\<lambda>e. path_str (dest base e)) es
                 \<and> (\<forall>e\<in>set es. present dsz (fsys st') base e))"
proof (induction es arbitrary: st)
  case Nil
  then show ?case by simp
next
  case (Cons e es)
  obtain rel ft where e: "e = (rel, ft)" by (cases e)
  obtain s1 r1 where c: "create_file render dsz base st rel ft = (s1, r1)"
    by (cases "create_file render dsz base st rel ft")
  from Cons.prems c e have r1: "r1 = None" by (cases r1) auto
  with Cons.prems c e have rest: "create_files render dsz base s1 es = (st', None)" by simp
  from rest have le: "disk_le (fsys s1) (fsys st')" by (rule create_files_le)
  from Cons.IH [OF rest] obtain cs ss where
    a: "created_files st' = created_files s1 @ cs"
    and b: "skipped_files st' = skipped_files s1 @ ss"
    and sub: "set cs \<union> set ss
               \<subseteq> (\<lambda>e. path_str (dest base e)) ` {e \<in> set es. present dsz (fsys st') base e}"
    and len: "length cs \<le> length es"
    and full: "length cs = length es \<longrightarrow>
                 cs = map (\<lambda>e. path_str (dest base e)) es
                 \<and> (\<forall>e\<in>set es. present dsz (fsys st') base e)"
    by blast
  let ?s = "path_str (dest base (rel, ft))"
  from c r1 ne have step:
    "(created_files s1 = created_files st \<and> skipped_files s1 = skipped_files st)
     \<or> (present dsz (fsys s1) base (rel, ft)
        \<and> ((created_files s1 = created_files st @ [?s] \<and> skipped_files s1 = skipped_files st)
           \<or> (created_files s1 = created_files st \<and> skipped_files s1 = skipped_files st @ [?s])))"
    by (intro create_file_lists) simp_all
  from sub have sub': "set cs \<union> set ss
     \<subseteq> (\<lambda>e. path_str (dest base e)) ` {x \<in> set (e # es). present dsz (fsys st') base x}"
    by auto
  from step consider
    (none) "created_files s1 = created_files st" "skipped_files s1 = skipped_files st"
    | (created) "present dsz (fsys s1) base (rel, ft)"
        "created_files s1 = created_files st @ [?s]" "skipped_files s1 = skipped_files st"
    | (skipped) "present dsz (fsys s1) base (rel, ft)"
        "created_files s1 = created_files st" "skipped_files s1 = skipped_files st @ [?s]"
    by blast
  then show ?case
  proof cases
    case none
    have h1: "created_files st' = created_files st @ cs" using a none by simp
    have h2: "skipped_files st' = skipped_files st @ ss" using b none by simp
    have h4: "length cs \<le> length (e # es)" using len by simp
    have h5: "length cs \<noteq> length (e # es)" using len by simp
    show ?thesis
      by (rule exI [of _ cs], rule exI [of _ ss]) (use h1 h2 sub' h4 h5 in blast)
  next
    case created
    from le created(1) have pr: "present dsz (fsys st') base e" unfolding e by (rule present_le)
    then have in_img: "?s \<in> (\<lambda>e. path_str (dest base e))
                          ` {x \<in> set (e # es). present dsz (fsys st') base x}"
      by (auto simp: e)
    have h1: "created_files st' = created_files st @ (?s # cs)" using a created by simp
    have h2: "skipped_files st' = skipped_files st @ ss" using b created by simp
    have h3: "set (?s # cs) \<union> set ss
       \<subseteq> (\<lambda>e. path_str (dest base e)) ` {x \<in> set (e # es). present dsz (fsys st') base x}"
      using sub' in_img by auto
    have h4: "length (?s # cs) \<le> length (e # es)" using len by simp
    have h5: "length (?s # cs) = length (e # es) \<longrightarrow>
         ?s # cs = map (\<lambda>e. path_str (dest base e)) (e # es)
         \<and> (\<forall>x\<in>set (e # es). present dsz (fsys st') base x)"
      using full pr by (auto simp: e)
    show ?thesis
      by (rule exI [of _ "?s # cs"], rule exI [of _ ss]) (use h1 h2 h3 h4 h5 in blast)
  next
    case skipped
    from le skipped(1) have pr: "present dsz (fsys st') base e" unfolding e by (rule present_le)
    then have in_img: "?s \<in> (\<lambda>e. path_str (dest base e))
                          ` {x \<in> set (e # es). present dsz (fsys st') base x}"
      by (auto simp: e)
    have h1: "created_files st' = created_files st @ cs" using a skipped by simp
    have h2: "skipped_files st' = skipped_files st @ (?s # ss)" using b skipped by simp
    have h3: "set cs \<union> set (?s # ss)
       \<subseteq> (\<lambda>e. path_str (dest base e)) ` {x \<in> set (e # es). present dsz (fsys st') base x}"
      using sub' in_img by auto
    have h4: "length cs \<le> length (e # es)" using len by simp
    have h5: "length cs \<noteq> length (e # es)" using len by simp
    show ?thesis
      by (rule exI [of _ cs], rule exI [of _ "?s # ss"]) (use h1 h2 h3 h4 h5 in blast)
  qed
qed

subsection \<open>The driver\<close>

lemma lookup_take_dir:
  assumes "lookup d p = Inr Dir"
  shows "lookup d (PPath r (take i (pnames p))) = Inr Dir"
proof -
  from assms obtain k where w: "walk d [] (pnames p) = Inr k" and n: "node_at d k = Some Dir"
    using lookup_InrD by blast
  have "pnames p = take i (pnames p) @ drop i (pnames p)" by simp
  then have a: "(case walk d [] (take i (pnames p)) of Inl e \<Rightarrow> Inl e
                | Inr k' \<Rightarrow> walk d k' (drop i (pnames p))) = Inr k"
    using w walk_append [of d "[]" "take i (pnames p)" "drop i (pnames p)"] by simp
  then obtain k' where w1: "walk d [] (take i (pnames p)) = Inr k'"
    and w2: "walk d k' (drop i (pnames p)) = Inr k"
    by (cases "walk d [] (take i (pnames p))") auto
  have "node_at d k' = Some Dir"
  proof (cases "drop i (pnames p)")
    case Nil
    with w2 n show ?thesis by simp
  next
    case (Cons c cs)
    with w2 show ?thesis by (auto split: option.splits node.splits)
  qed
  with w1 show ?thesis by (simp add: lookup_def)
qed

lemma existing_entry_settled:
  assumes "lookup (fsys st) (dest base_path (relative_path, file_type)) = Inr n"
    and "0 < st_size dsz n"
  shows "settled render dsz (fsys st) base_path (relative_path, file_type)"
    and "present dsz (fsys st) base_path (relative_path, file_type)"
proof -
  show p: "present dsz (fsys st) base_path (relative_path, file_type)"
    using assms by (simp add: present_def)
  from assms(1) have "lookup (fsys st) (parent (dest base_path (relative_path, file_type))) = Inr Dir"
    by (rule lookup_walk_parent)
  with p show "settled render dsz (fsys st) base_path (relative_path, file_type)"
    by (simp add: settled_def)
qed

text \<open>
  C2. When the destination of an entry exists with a size greater than zero,
  \<open>_create_file\<close> appends the path to the skipped list and does nothing else: the disk
  is the same, so nothing is written, and the result does not depend on the templates, so
  nothing is rendered. Over a whole run, a file that is non-empty keeps its content,
  whatever the entries are.
\<close>

theorem create_file_skips_existing:
  assumes "lookup (fsys st) (dest base_path (relative_path, file_type)) = Inr (File content)"
    and "content \<noteq> []"
  shows "create_file render dsz base_path st relative_path file_type
         = (st\<lparr>skipped_files := skipped_files st
                    @ [path_str (dest base_path (relative_path, file_type))]\<rparr>, None)
       \<and> (\<forall>files st' r. create_files render dsz base_path st files = (st', r) \<longrightarrow>
             lookup (fsys st') (dest base_path (relative_path, file_type))
             = Inr (File content))"
proof
  from assms(2) have sz: "0 < st_size dsz (File content)" by (simp add: st_size_def)
  from assms(1) sz
  have "settled render dsz (fsys st) base_path (relative_path, file_type)"
    and "present dsz (fsys st) base_path (relative_path, file_type)"
    by (rule existing_entry_settled)+
  then show "create_file render dsz base_path st relative_path file_type
         = (st\<lparr>skipped_files := skipped_files st
                    @ [path_str (dest base_path (relative_path, file_type))]\<rparr>, None)"
    by (simp add: settled_create_file)
next
  show "\<forall>files st' r. create_files render dsz base_path st files = (st', r) \<longrightarrow>
          lookup (fsys st') (dest base_path (relative_path, file_type)) = Inr (File content)"
  proof (intro allI impI)
    fix files st' r
    assume "create_files render dsz base_path st files = (st', r)"
    then have "disk_le (fsys st) (fsys st')" by (rule create_files_le)
    then show "lookup (fsys st') (dest base_path (relative_path, file_type))
               = Inr (File content)"
      using assms by (rule lookup_le_file)
  qed
qed

theorem create_file_skips_existing_witness:
  "lookup (fsys (fresh_state example_disk)) (dest (Path ''app'') (''src/a.ts'', ''generic''))
     = Inr (File ''export {}'')
   \<and> ''export {}'' \<noteq> []
   \<and> create_file example_render 4096 (Path ''app'') (fresh_state example_disk)
        ''src/a.ts'' ''generic''
      = ((fresh_state example_disk)\<lparr>skipped_files :=
            skipped_files (fresh_state example_disk)
            @ [path_str (dest (Path ''app'') (''src/a.ts'', ''generic''))]\<rparr>, None)"
proof -
  have a: "lookup (fsys (fresh_state example_disk))
             (dest (Path ''app'') (''src/a.ts'', ''generic'')) = Inr (File ''export {}'')"
    by code_simp
  have b: "''export {}'' \<noteq> []" by simp
  show ?thesis
    using a b create_file_skips_existing [OF a b, of example_render 4096] by blast
qed

lemma fresh_state_fsys: "fsys (fresh_state d) = d"
  by (simp add: fresh_state_def)

lemma fresh_state_created: "created_files (fresh_state d) = []"
  by (simp add: fresh_state_def)

lemma fresh_state_skipped: "skipped_files (fresh_state d) = []"
  by (simp add: fresh_state_def)

text \<open>
  C6 (as the code has it). After a first run over the entries of a document that returns
  normally, a second run over the same entries on the disk the first one left returns
  normally, creates no file, and leaves the disk as it is; it skips every path the first
  run created or skipped. When the first run created every entry, the second run skips
  exactly those paths, in the same order. The template bodies are taken to be non-empty,
  as each one in the source is.
\<close>

theorem second_run_creates_nothing:
  assumes "create_files render dsz base_path (fresh_state disk0) files = (st1, None)"
    and "\<forall>k p t c. render k p t = Some c \<longrightarrow> c \<noteq> []"
  shows "\<exists>st2. create_files render dsz base_path (fresh_state (fsys st1)) files = (st2, None)
           \<and> fsys st2 = fsys st1 \<and> created_files st2 = []
           \<and> set (created_files st1) \<union> set (skipped_files st1) \<subseteq> set (skipped_files st2)
           \<and> (length (created_files st1) = length files \<longrightarrow>
                skipped_files st2 = created_files st1)"
proof -
  let ?f = "\<lambda>e. path_str (dest base_path e)"
  let ?keep = "filter (present dsz (fsys st1) base_path) files"
  let ?st2 = "(fresh_state (fsys st1))\<lparr>skipped_files := map ?f ?keep\<rparr>"
  have "\<forall>e\<in>set files. settled render dsz (fsys st1) base_path e"
    using assms(2) assms(1) by (rule create_files_settled)
  then have "\<forall>e\<in>set files. settled render dsz (fsys (fresh_state (fsys st1))) base_path e"
    by (simp only: fresh_state_fsys)
  then have "create_files render dsz base_path (fresh_state (fsys st1)) files
    = ((fresh_state (fsys st1))\<lparr>skipped_files := skipped_files (fresh_state (fsys st1))
         @ map ?f (filter (present dsz (fsys (fresh_state (fsys st1))) base_path) files)\<rparr>,
       None)"
    by (rule create_files_of_settled)
  then have run2: "create_files render dsz base_path (fresh_state (fsys st1)) files
                   = (?st2, None)"
    by (simp only: fresh_state_fsys fresh_state_skipped append_Nil)
  obtain cs ss where
    c0: "created_files st1 = created_files (fresh_state disk0) @ cs"
    and s0: "skipped_files st1 = skipped_files (fresh_state disk0) @ ss"
    and sub: "set cs \<union> set ss \<subseteq> ?f ` {e \<in> set files. present dsz (fsys st1) base_path e}"
    and full: "length cs = length files \<longrightarrow>
                 cs = map ?f files \<and> (\<forall>e\<in>set files. present dsz (fsys st1) base_path e)"
    using create_files_lists [OF assms(2) assms(1)] by blast
  from c0 have c: "created_files st1 = cs" by (simp only: fresh_state_created append_Nil)
  from s0 have s: "skipped_files st1 = ss" by (simp only: fresh_state_skipped append_Nil)
  have img: "?f ` {e \<in> set files. present dsz (fsys st1) base_path e} = set (map ?f ?keep)"
    by (simp only: set_map set_filter)
  have sk2: "skipped_files ?st2 = map ?f ?keep" by simp
  have h0: "fsys ?st2 = fsys st1" by (simp add: fresh_state_fsys)
  have h00: "created_files ?st2 = []" by (simp add: fresh_state_created)
  have h1: "set (created_files st1) \<union> set (skipped_files st1) \<subseteq> set (skipped_files ?st2)"
    using sub unfolding c s img sk2 .
  have h2: "length (created_files st1) = length files \<longrightarrow>
              skipped_files ?st2 = created_files st1"
  proof
    assume "length (created_files st1) = length files"
    then have "length cs = length files" by (simp only: c)
    with full have m: "cs = map ?f files"
      and all: "\<forall>e\<in>set files. present dsz (fsys st1) base_path e" by blast+
    from all have "?keep = files" by (simp only: filter_True)
    then show "skipped_files ?st2 = created_files st1" unfolding sk2 c m by (rule arg_cong)
  qed
  show ?thesis
    by (rule exI [of _ ?st2]) (intro conjI run2 h0 h00 h1 h2)
qed

theorem second_run_creates_nothing_witness:
  "snd (create_files example_render 4096 (Path ''app'') (fresh_state example_disk)
          [(''src/b.ts'', ''generic''), (''src/models/User.ts'', ''model'')]) = None
   \<and> (\<exists>st2. create_files example_render 4096 (Path ''app'')
         (fresh_state (fsys (fst (create_files example_render 4096 (Path ''app'')
            (fresh_state example_disk)
            [(''src/b.ts'', ''generic''), (''src/models/User.ts'', ''model'')]))))
         [(''src/b.ts'', ''generic''), (''src/models/User.ts'', ''model'')] = (st2, None)
       \<and> created_files st2 = [])"
proof -
  let ?run1 = "create_files example_render 4096 (Path ''app'') (fresh_state example_disk)
          [(''src/b.ts'', ''generic''), (''src/models/User.ts'', ''model'')]"
  have a: "snd ?run1 = None" by code_simp
  then have a': "?run1 = (fst ?run1, None)" by (simp add: prod_eq_iff)
  have b: "\<forall>k p t c. example_render k p t = Some c \<longrightarrow> c \<noteq> []"
    by (simp add: example_render_def)
  show ?thesis
    using a second_run_creates_nothing [OF a' b] by blast
qed

text \<open>
  C6 as stated fails: on a disk where \<open>src/a.ts\<close> already exists, a first run over
  \<open>src/a.ts\<close> and \<open>src/b.ts\<close> creates one file and skips one, and the second run skips
  two, not one.
\<close>

theorem second_run_skips_more_counterexample:
  "summary (fst (create_files example_render 4096 (Path ''app'') (fresh_state example_disk)
              [(''src/a.ts'', ''generic''), (''src/b.ts'', ''generic'')])) = (1, 1)
   \<and> summary (fst (create_files example_render 4096 (Path ''app'')
        (fresh_state (fsys (fst (create_files example_render 4096 (Path ''app'')
           (fresh_state example_disk)
           [(''src/a.ts'', ''generic''), (''src/b.ts'', ''generic'')]))))
        [(''src/a.ts'', ''generic''), (''src/b.ts'', ''generic'')])) = (0, 2)"
  by code_simp

lemma create_file_parent_dir:
  assumes "create_file render dsz base_path st relative_path file_type = (st', None)"
  shows "lookup (fsys st') (parent (dest base_path (relative_path, file_type))) = Inr Dir"
  using assms
proof (cases rule: create_file_cases)
  case (abort d1 e)
  then show ?thesis by simp
next
  case (skip d1)
  from skip(1) have "lookup d1 (parent (dest base_path (relative_path, file_type))) = Inr Dir"
    by (rule mkdir_parents_dir)
  with skip(3) show ?thesis by simp
next
  case (norender d1)
  from norender(1)
  have "lookup d1 (parent (dest base_path (relative_path, file_type))) = Inr Dir"
    by (rule mkdir_parents_dir)
  with norender(4) show ?thesis by simp
next
  case (nowrite d1 content e)
  from nowrite(1)
  have "lookup d1 (parent (dest base_path (relative_path, file_type))) = Inr Dir"
    by (rule mkdir_parents_dir)
  with nowrite(5) show ?thesis by simp
next
  case (written d1 content d2)
  from written(1)
  have p: "lookup d1 (parent (dest base_path (relative_path, file_type))) = Inr Dir"
    by (rule mkdir_parents_dir)
  from written(2) have np: "\<not> (case lookup d1 (dest base_path (relative_path, file_type)) of
                               Inl e \<Rightarrow> False | Inr n \<Rightarrow> 0 < st_size dsz n)"
    by (simp add: present_def)
  from written(4) np have "disk_le d1 d2" by (rule write_file_le)
  then have "lookup d2 (parent (dest base_path (relative_path, file_type))) = Inr Dir"
    using p by (rule lookup_le_dir)
  with written(5) show ?thesis by simp
qed

text \<open>
  A run over the single entry \<open>newdir/../src/a.ts\<close>, whose destination exists: the entry
  is skipped, and the directory \<open>app/newdir\<close>, which was not there, has been made.
\<close>

lemma skipped_run_makes_directory:
  "created_files (fst (create_files example_render 4096 (Path ''app'')
      (fresh_state example_disk) [(''newdir/../src/a.ts'', ''generic'')])) = []
   \<and> skipped_files (fst (create_files example_render 4096 (Path ''app'')
      (fresh_state example_disk) [(''newdir/../src/a.ts'', ''generic'')]))
     = [''app/newdir/../src/a.ts'']
   \<and> snd (create_files example_render 4096 (Path ''app'')
      (fresh_state example_disk) [(''newdir/../src/a.ts'', ''generic'')]) = None
   \<and> lookup example_disk (Path ''app/newdir'') = Inl ENOENT
   \<and> lookup (fsys (fst (create_files example_render 4096 (Path ''app'')
      (fresh_state example_disk) [(''newdir/../src/a.ts'', ''generic'')])))
        (Path ''app/newdir'') = Inr Dir"
  by code_simp

text \<open>
  C10. For every entry for which \<open>_create_file\<close> returns, whether the entry is skipped,
  created or fails to be written, the parent of the destination and every directory above
  it are directories afterwards: \<open>mkdir\<close> runs before the existence check. Hence a run
  whose every entry is skipped can change the disk: over the one entry
  \<open>newdir/../src/a.ts\<close>, which is skipped, the directory \<open>app/newdir\<close> is made.
\<close>

theorem create_file_makes_parent_directories:
  "(create_file render dsz base_path st relative_path file_type = (st', None) \<longrightarrow>
      (\<forall>i. lookup (fsys st')
             (PPath (proot (parent (dest base_path (relative_path, file_type))))
                (take i (pnames (parent (dest base_path (relative_path, file_type))))))
           = Inr Dir))
   \<and> created_files (fst (create_files example_render 4096 (Path ''app'')
        (fresh_state example_disk) [(''newdir/../src/a.ts'', ''generic'')])) = []
   \<and> skipped_files (fst (create_files example_render 4096 (Path ''app'')
        (fresh_state example_disk) [(''newdir/../src/a.ts'', ''generic'')]))
      = [''app/newdir/../src/a.ts'']
   \<and> lookup example_disk (Path ''app/newdir'') = Inl ENOENT
   \<and> lookup (fsys (fst (create_files example_render 4096 (Path ''app'')
        (fresh_state example_disk) [(''newdir/../src/a.ts'', ''generic'')])))
          (Path ''app/newdir'') = Inr Dir"
proof -
  have "create_file render dsz base_path st relative_path file_type = (st', None) \<longrightarrow>
      (\<forall>i. lookup (fsys st')
             (PPath (proot (parent (dest base_path (relative_path, file_type))))
                (take i (pnames (parent (dest base_path (relative_path, file_type))))))
           = Inr Dir)"
  proof (intro impI allI)
    fix i
    assume "create_file render dsz base_path st relative_path file_type = (st', None)"
    then have "lookup (fsys st') (parent (dest base_path (relative_path, file_type))) = Inr Dir"
      by (rule create_file_parent_dir)
    then show "lookup (fsys st')
             (PPath (proot (parent (dest base_path (relative_path, file_type))))
                (take i (pnames (parent (dest base_path (relative_path, file_type))))))
           = Inr Dir"
      by (rule lookup_take_dir)
  qed
  with skipped_run_makes_directory show ?thesis by blast
qed

theorem create_file_makes_parent_directories_witness:
  "snd (create_file example_render 4096 (Path ''app'') (fresh_state example_disk)
          ''newdir/../src/a.ts'' ''generic'') = None
   \<and> lookup (fsys (fst (create_file example_render 4096 (Path ''app'')
          (fresh_state example_disk) ''newdir/../src/a.ts'' ''generic'')))
        (PPath (proot (parent (dest (Path ''app'') (''newdir/../src/a.ts'', ''generic''))))
           (take 2 (pnames (parent (dest (Path ''app'') (''newdir/../src/a.ts'', ''generic''))))))
      = Inr Dir"
proof -
  let ?r = "create_file example_render 4096 (Path ''app'') (fresh_state example_disk)
          ''newdir/../src/a.ts'' ''generic''"
  have a: "snd ?r = None" by code_simp
  then have a': "?r = (fst ?r, None)" by (simp add: prod_eq_iff)
  show ?thesis
    using a a' create_file_makes_parent_directories
      [of example_render 4096 "Path ''app''" "fresh_state example_disk"
          "''newdir/../src/a.ts''" "''generic''" "fst ?r"]
    by blast
qed

















end
